theory Spec2Isabelle
  imports Main
begin

section \<open>The cla plugin of prow: data\<close>

text \<open>
  The plugin lives in \<^verbatim>\<open>pkg/plugins/cla/cla.go\<close>. It reacts to two webhook events:
  a commit status of the context \<^verbatim>\<open>EasyCLA\<close> (function \<^verbatim>\<open>handle\<close>) and a
  \<^verbatim>\<open>/check-cla\<close> comment (function \<^verbatim>\<open>handleComment\<close>). Both talk to GitHub through
  the interface \<^verbatim>\<open>gitHubClient\<close> and write to a logger.

  Go strings are byte sequences, and so is \<^typ>\<open>string\<close>. Go's \<^verbatim>\<open>int\<close> is only ever
  passed along (issue and pull request numbers), so it is \<^typ>\<open>int\<close>.
\<close>

subsection \<open>Errors\<close>

text \<open>
  A Go \<^verbatim>\<open>error\<close>: \<^verbatim>\<open>fmt.Errorf(msg)\<close> is \<open>Errorf msg\<close>, and
  \<^verbatim>\<open>fmt.Errorf(msg + ": %w", err)\<close> is \<open>Wrapf msg err\<close>. A function returning
  \<^verbatim>\<open>error\<close> returns an \<open>error option\<close>, \<open>None\<close> being \<^verbatim>\<open>nil\<close>.
\<close>

datatype error = Errorf string | Wrapf string error

subsection \<open>The structs of package github that the plugin reads\<close>

text \<open>
  The struct declarations are in package \<^verbatim>\<open>github\<close>; only the fields that
  \<^verbatim>\<open>cla.go\<close> reads are kept. Field names carry the struct as a prefix.
\<close>

record Label =
  label_Name :: string

record Issue =
  issue_Number :: int
  issue_Labels :: "Label list"

record PullRequestBranch =
  branch_SHA :: string

record PullRequest =
  pr_Number :: int
  pr_Head :: PullRequestBranch

record Status =
  status_State :: string
  status_Context :: string

record CombinedStatus =
  Statuses :: "Status list"

record User =
  user_Login :: string

record Repo =
  repo_Owner :: User
  repo_Name :: string

record StatusEvent =
  se_SHA :: string
  se_State :: string
  se_Context :: string
  se_Repo :: Repo

text \<open>
  Modelled from the spec: the type \<^verbatim>\<open>github.GenericCommentEventAction\<close> and its
  constant \<^verbatim>\<open>GenericCommentActionCreated\<close> are declared outside \<^verbatim>\<open>cla.go\<close>; the
  spec distinguishes a newly created comment from an edited and a deleted one.
\<close>

datatype GenericCommentEventAction =
  GenericCommentActionCreated | GenericCommentActionEdited | GenericCommentActionDeleted

record GenericCommentEvent =
  ce_IssueState :: string
  ce_Action :: GenericCommentEventAction
  ce_Body :: string
  ce_Repo :: Repo
  ce_Number :: int

subsection \<open>Constants\<close>

definition claContextName :: string where
  "claContextName = ''EasyCLA''"

definition maxRetries :: nat where
  "maxRetries = 5"

text \<open>
  The four verdict states are constants of package \<^verbatim>\<open>github\<close>, declared outside
  \<^verbatim>\<open>cla.go\<close>; the spec names them: pending, success, failure and error. The state of an
  event stays a string, as in the code, which compares it with the empty string.
\<close>

text \<open>Modelled from the spec: the constant \<^verbatim>\<open>github.StatusPending\<close>, the state pending.\<close>

definition StatusPending :: string where
  "StatusPending = ''pending''"

text \<open>Modelled from the spec: the constant \<^verbatim>\<open>github.StatusSuccess\<close>, the state success.\<close>

definition StatusSuccess :: string where
  "StatusSuccess = ''success''"

text \<open>Modelled from the spec: the constant \<^verbatim>\<open>github.StatusFailure\<close>, the state failure.\<close>

definition StatusFailure :: string where
  "StatusFailure = ''failure''"

text \<open>Modelled from the spec: the constant \<^verbatim>\<open>github.StatusError\<close>, the state error.\<close>

definition StatusError :: string where
  "StatusError = ''error''"

text \<open>
  What \<^verbatim>\<open>cla.go\<close> imports from other packages of the repository and the spec does not
  spell out is a parameter of the model: the two label names \<^verbatim>\<open>labels.ClaYes\<close> and
  \<^verbatim>\<open>labels.ClaNo\<close>, and the method \<^verbatim>\<open>Issue.HasLabel\<close>. Every theorem below holds for
  all values of these parameters.
\<close>

record imported =
  labels_ClaYes :: string
  labels_ClaNo :: string
  Issue_HasLabel :: "Issue \<Rightarrow> string \<Rightarrow> bool"

subsection \<open>The outside world: client calls, sleeping and logging\<close>

datatype level = Info | Warning | Error

text \<open>
  Everything the plugin does to the outside is an event, appended to a history in the order
  of execution: a call of a method of the client with its arguments, a
  \<^verbatim>\<open>time.Sleep\<close> (in seconds), and a log line (its level and its format string).
\<close>

datatype event =
    AddLabelCall string string int string
  | RemoveLabelCall string string int string
  | GetPullRequestCall string string int
  | FindIssuesCall string string bool
  | GetIssueLabelsCall string string int
  | GetCombinedStatusCall string string string
  | Sleep nat
  | Logged level string

text \<open>
  The interface \<^verbatim>\<open>gitHubClient\<close>. An implementation is any deterministic object with
  state of its own: what a method returns may depend on everything that happened before
  the call, so each method takes the history first. A Go pointer result is an option,
  \<open>None\<close> being \<^verbatim>\<open>nil\<close>; a slice result is a list (a \<^verbatim>\<open>nil\<close> slice is the empty one,
  its length is 0 and ranging over it does nothing); the interface allows every
  combination of result and error.
\<close>

record gitHubClient =
  AddLabel :: "event list \<Rightarrow> string \<Rightarrow> string \<Rightarrow> int \<Rightarrow> string \<Rightarrow> error option"
  RemoveLabel :: "event list \<Rightarrow> string \<Rightarrow> string \<Rightarrow> int \<Rightarrow> string \<Rightarrow> error option"
  GetPullRequest :: "event list \<Rightarrow> string \<Rightarrow> string \<Rightarrow> int \<Rightarrow> PullRequest option \<times> error option"
  FindIssues :: "event list \<Rightarrow> string \<Rightarrow> string \<Rightarrow> bool \<Rightarrow> Issue list \<times> error option"
  GetIssueLabels :: "event list \<Rightarrow> string \<Rightarrow> string \<Rightarrow> int \<Rightarrow> Label list \<times> error option"
  GetCombinedStatus :: "event list \<Rightarrow> string \<Rightarrow> string \<Rightarrow> string \<Rightarrow> CombinedStatus option \<times> error option"

text \<open>
  How a handler ends: it returns its \<^verbatim>\<open>error\<close>, or it panics on a nil pointer
  dereference.
\<close>

datatype outcome = Returned "error option" | Panicked

fun isMutation :: "event \<Rightarrow> bool" where
  "isMutation (AddLabelCall org repo n l) = True"
| "isMutation (RemoveLabelCall org repo n l) = True"
| "isMutation e = False"

fun isSearch :: "event \<Rightarrow> bool" where
  "isSearch (FindIssuesCall q s a) = True"
| "isSearch e = False"

fun isCall :: "event \<Rightarrow> bool" where
  "isCall (Sleep n) = False"
| "isCall (Logged l m) = False"
| "isCall e = True"

definition mutations :: "event list \<Rightarrow> event list" where
  "mutations h = filter isMutation h"

definition searches :: "event list \<Rightarrow> event list" where
  "searches h = filter isSearch h"

definition calls :: "event list \<Rightarrow> event list" where
  "calls h = filter isCall h"

section \<open>The status path: handle\<close>

text \<open>
  \<^verbatim>\<open>gc.RemoveLabel(...)\<close> and \<^verbatim>\<open>gc.AddLabel(...)\<close> together with the
  \<^verbatim>\<open>if err != nil { ...Warningf(...) }\<close> that follows each of the eight calls in the file.
\<close>

definition gc_RemoveLabel ::
  "gitHubClient \<Rightarrow> string \<Rightarrow> string \<Rightarrow> int \<Rightarrow> string \<Rightarrow> event list \<Rightarrow> event list" where
  "gc_RemoveLabel gc org repo number label h =
     (case RemoveLabel gc h org repo number label of
        Some err \<Rightarrow> h @ [RemoveLabelCall org repo number label,
                         Logged Warning ''Could not remove %s label.'']
      | None \<Rightarrow> h @ [RemoveLabelCall org repo number label])"

definition gc_AddLabel ::
  "gitHubClient \<Rightarrow> string \<Rightarrow> string \<Rightarrow> int \<Rightarrow> string \<Rightarrow> event list \<Rightarrow> event list" where
  "gc_AddLabel gc org repo number label h =
     (case AddLabel gc h org repo number label of
        Some err \<Rightarrow> h @ [AddLabelCall org repo number label,
                         Logged Warning ''Could not add %s label.'']
      | None \<Rightarrow> h @ [AddLabelCall org repo number label])"

text \<open>
  The query of line 105:
  \<^verbatim>\<open>fmt.Sprintf("%s repo:%s/%s type:pr state:open", se.SHA, org, repo)\<close>.
\<close>

definition searchQuery :: "StatusEvent \<Rightarrow> string" where
  "searchQuery se =
     se_SHA se @ '' repo:'' @ user_Login (repo_Owner (se_Repo se)) @ ''/''
       @ repo_Name (se_Repo se) @ '' type:pr state:open''"

text \<open>
  The retry loop of lines 104 to 113, by the number of attempts left
  (\<^verbatim>\<open>maxRetries - i\<close>): an error of the search returns from \<^verbatim>\<open>handle\<close> with the
  error wrapped (\<open>Inl\<close>), a non-empty result leaves the loop, an empty one sleeps ten
  seconds and goes round again. When the attempts are used up the loop ends with the
  last, empty, result.
\<close>

fun findLoop ::
  "gitHubClient \<Rightarrow> string \<Rightarrow> nat \<Rightarrow> event list \<Rightarrow> (error + Issue list) \<times> event list" where
  "findLoop gc q 0 h = (Inr [], h)"
| "findLoop gc q (Suc n) h =
     (case FindIssues gc h q '''' False of
        (issues, Some err) \<Rightarrow>
          (Inl (Wrapf ''error searching for issues matching commit'' err),
           h @ [FindIssuesCall q '''' False])
      | (issues, None) \<Rightarrow>
          if length issues > 0 then (Inr issues, h @ [FindIssuesCall q '''' False])
          else findLoop gc q n (h @ [FindIssuesCall q '''' False, Sleep 10]))"

text \<open>
  The body of the loop over the matching issues, lines 117 to 166. The result says
  whether the body panicked (a \<^verbatim>\<open>nil\<close> pull request returned without an error is
  dereferenced at line 140), and gives the history after the body.
\<close>

definition handleIssue ::
  "imported \<Rightarrow> gitHubClient \<Rightarrow> StatusEvent \<Rightarrow> Issue \<Rightarrow> event list \<Rightarrow> bool \<times> event list" where
  "handleIssue im gc se issue h =
     (let org = user_Login (repo_Owner (se_Repo se));
          repo = repo_Name (se_Repo se);
          hasCncfYes = Issue_HasLabel im issue (labels_ClaYes im);
          hasCncfNo = Issue_HasLabel im issue (labels_ClaNo im)
      in
      if hasCncfYes \<and> se_State se = StatusSuccess then
        (False, h @ [Logged Info ''PR has up-to-date %s label.''])
      else if hasCncfNo \<and> (se_State se = StatusFailure \<or> se_State se = StatusError) then
        (False, h @ [Logged Info ''PR has up-to-date %s label.''])
      else
        let h1 = h @ [Logged Info ''PR labels may be out of date. Getting pull request info.''];
            h2 = h1 @ [GetPullRequestCall org repo (issue_Number issue)]
        in
        case GetPullRequest gc h1 org repo (issue_Number issue) of
          (pr, Some err) \<Rightarrow> (False, h2 @ [Logged Warning ''Unable to fetch PR-%d from %s/%s.''])
        | (None, None) \<Rightarrow> (True, h2)
        | (Some pr, None) \<Rightarrow>
            if branch_SHA (pr_Head pr) \<noteq> se_SHA se then
              (False, h2 @ [Logged Info ''Event is not for PR HEAD, skipping.''])
            else
              let number = pr_Number pr in
              if se_State se = StatusSuccess then
                let h3 = (if hasCncfNo then gc_RemoveLabel gc org repo number (labels_ClaNo im) h2
                          else h2)
                in (False, gc_AddLabel gc org repo number (labels_ClaYes im) h3)
              else
                let h3 = (if hasCncfYes then gc_RemoveLabel gc org repo number (labels_ClaYes im) h2
                          else h2)
                in (False, gc_AddLabel gc org repo number (labels_ClaNo im) h3))"

text \<open>The loop of line 116 over the issues found; a panic ends it.\<close>

fun handleIssues ::
  "imported \<Rightarrow> gitHubClient \<Rightarrow> StatusEvent \<Rightarrow> Issue list \<Rightarrow> event list \<Rightarrow> outcome \<times> event list" where
  "handleIssues im gc se [] h = (Returned None, h)"
| "handleIssues im gc se (issue # rest) h =
     (case handleIssue im gc se issue h of
        (True, h') \<Rightarrow> (Panicked, h')
      | (False, h') \<Rightarrow> handleIssues im gc se rest h')"

text \<open>
  \<^verbatim>\<open>handle\<close>, lines 83 to 169. The result is how the call ended and the history of the
  events of this call.
\<close>

definition handle :: "imported \<Rightarrow> gitHubClient \<Rightarrow> StatusEvent \<Rightarrow> outcome \<times> event list" where
  "handle im gc se =
     (if se_State se = '''' \<or> se_Context se = '''' then
        (Returned (Some (Errorf ''invalid status event delivered with empty state/context'')), [])
      else if se_Context se \<noteq> claContextName then (Returned None, [])
      else if se_State se = StatusPending then (Returned None, [])
      else
        case findLoop gc (searchQuery se) maxRetries
               [Logged Info ''Searching for PRs matching the commit.''] of
          (Inl err, h) \<Rightarrow> (Returned (Some err), h)
        | (Inr issues, h) \<Rightarrow>
            handleIssues im gc se issues (h @ [Logged Info ''Found %d PRs matching commit.'']))"

section \<open>The comment path: handleComment\<close>

subsection \<open>The regular expression checkCLARe\<close>

text \<open>
  \<^verbatim>\<open>checkCLARe = regexp.MustCompile(`(?mi)^/check-cla\s*$`)\<close>, and
  \<^verbatim>\<open>MatchString\<close> asks whether the expression matches anywhere in the body.

  Flag \<^verbatim>\<open>i\<close>: each rune of the literal matches every rune of its case-folding orbit.
  For the letters of \<^verbatim>\<open>/check-cla\<close> that is the lower-case and the upper-case letter,
  and for \<^verbatim>\<open>k\<close> also the Kelvin sign U+212A, three bytes in UTF-8. The table gives,
  rune by rune, the byte strings that match.
\<close>

definition kelvinSign :: string where
  "kelvinSign = [CHR 0xE2, CHR 0x84, CHR 0xAA]"

definition checkCLALiteral :: "string list list" where
  "checkCLALiteral =
     [[''/''], [''c'', ''C''], [''h'', ''H''], [''e'', ''E''], [''c'', ''C''],
      [''k'', ''K'', kelvinSign], [''-''], [''c'', ''C''], [''l'', ''L''], [''a'', ''A'']]"

fun stripPrefix :: "string \<Rightarrow> string \<Rightarrow> string option" where
  "stripPrefix [] s = Some s"
| "stripPrefix (p # ps) [] = None"
| "stripPrefix (p # ps) (c # cs) = (if p = c then stripPrefix ps cs else None)"

text \<open>One rune of the literal: the text goes on with one of the byte strings of the rune.\<close>

fun matchRune :: "string list \<Rightarrow> string \<Rightarrow> string option" where
  "matchRune [] s = None"
| "matchRune (a # as) s =
     (case stripPrefix a s of Some rest \<Rightarrow> Some rest | None \<Rightarrow> matchRune as s)"

fun matchLiteral :: "string list list \<Rightarrow> string \<Rightarrow> string option" where
  "matchLiteral [] s = Some s"
| "matchLiteral (r # rs) s =
     (case matchRune r s of None \<Rightarrow> None | Some rest \<Rightarrow> matchLiteral rs rest)"

text \<open>The class \<^verbatim>\<open>\s\<close> of Go's regexp: tab, newline, form feed, carriage return, space.\<close>

definition newline :: char where
  "newline = CHR 0x0A"

definition isSpaceClass :: "char \<Rightarrow> bool" where
  "isSpaceClass c = (c = CHR 0x09 \<or> c = newline \<or> c = CHR 0x0C \<or> c = CHR 0x0D \<or> c = CHR '' '')"

text \<open>
  \<^verbatim>\<open>\s*$\<close> under flag \<^verbatim>\<open>m\<close>: after some characters of the class the text ends or a
  newline follows.
\<close>

fun spacesThenEnd :: "string \<Rightarrow> bool" where
  "spacesThenEnd [] = True"
| "spacesThenEnd (c # cs) = (c = newline \<or> (isSpaceClass c \<and> spacesThenEnd cs))"

definition matchHere :: "string \<Rightarrow> bool" where
  "matchHere s =
     (case matchLiteral checkCLALiteral s of None \<Rightarrow> False | Some rest \<Rightarrow> spacesThenEnd rest)"

text \<open>
  The search for a match: \<^verbatim>\<open>^\<close> under flag \<^verbatim>\<open>m\<close> holds at the start of the text and
  after each newline; the flag of \<open>matchFrom\<close> says whether the position is such a one.
\<close>

fun matchFrom :: "bool \<Rightarrow> string \<Rightarrow> bool" where
  "matchFrom atLineStart [] = (atLineStart \<and> matchHere [])"
| "matchFrom atLineStart (c # cs) =
     ((atLineStart \<and> matchHere (c # cs)) \<or> matchFrom (c = newline) cs)"

definition checkCLARe_MatchString :: "string \<Rightarrow> bool" where
  "checkCLARe_MatchString body = matchFrom True body"

subsection \<open>handleComment\<close>

text \<open>The loop of lines 196 to 204 over the labels of the issue, setting the two flags.\<close>

fun scanLabels :: "imported \<Rightarrow> Label list \<Rightarrow> bool \<times> bool \<Rightarrow> bool \<times> bool" where
  "scanLabels im [] flags = flags"
| "scanLabels im (candidate # rest) (hasCLAYes, hasCLANo) =
     scanLabels im rest
       (if label_Name candidate = labels_ClaYes im then True else hasCLAYes,
        if label_Name candidate = labels_ClaNo im then True else hasCLANo)"

text \<open>
  The loop of lines 218 to 261 over the statuses of the head commit: the first status of
  the context \<^verbatim>\<open>EasyCLA\<close> decides, and the loop breaks after it.
\<close>

fun statusLoop ::
  "imported \<Rightarrow> gitHubClient \<Rightarrow> string \<Rightarrow> string \<Rightarrow> int \<Rightarrow> bool \<Rightarrow> bool \<Rightarrow> Status list
     \<Rightarrow> event list \<Rightarrow> event list" where
  "statusLoop im gc org repo number hasCLAYes hasCLANo [] h = h"
| "statusLoop im gc org repo number hasCLAYes hasCLANo (status # rest) h =
     (if status_Context status = claContextName then
        if status_State status = StatusSuccess then
          let h1 = (if hasCLANo then gc_RemoveLabel gc org repo number (labels_ClaNo im) h else h)
          in if \<not> hasCLAYes then gc_AddLabel gc org repo number (labels_ClaYes im) h1 else h1
        else if status_State status = StatusFailure then
          let h1 = (if hasCLAYes then gc_RemoveLabel gc org repo number (labels_ClaYes im) h else h)
          in if \<not> hasCLANo then gc_AddLabel gc org repo number (labels_ClaNo im) h1 else h1
        else h
      else statusLoop im gc org repo number hasCLAYes hasCLANo rest h)"

text \<open>
  \<^verbatim>\<open>handleComment\<close>, lines 175 to 263. After each of the three fetches an error is
  logged and the function goes on; \<^verbatim>\<open>pr.Head.SHA\<close> (line 212) and
  \<^verbatim>\<open>combined.Statuses\<close> (line 218) dereference the pointers returned, and panic on
  \<^verbatim>\<open>nil\<close>.
\<close>

definition handleComment ::
  "imported \<Rightarrow> gitHubClient \<Rightarrow> GenericCommentEvent \<Rightarrow> outcome \<times> event list" where
  "handleComment im gc e =
     (if ce_IssueState e \<noteq> ''open'' \<or> ce_Action e \<noteq> GenericCommentActionCreated then
        (Returned None, [])
      else if \<not> checkCLARe_MatchString (ce_Body e) then (Returned None, [])
      else
        let org = user_Login (repo_Owner (ce_Repo e));
            repo = repo_Name (ce_Repo e);
            number = ce_Number e
        in
        case GetIssueLabels gc [] org repo number of (issueLabels, err1) \<Rightarrow>
        let h1 = [GetIssueLabelsCall org repo number]
                 @ (case err1 of
                      Some err \<Rightarrow> [Logged Error ''Failed to get the labels on %s/%s#%d.'']
                    | None \<Rightarrow> [])
        in
        case scanLabels im issueLabels (False, False) of (hasCLAYes, hasCLANo) \<Rightarrow>
        case GetPullRequest gc h1 org repo number of (pr, err2) \<Rightarrow>
        let h2 = h1 @ [GetPullRequestCall org repo number]
                 @ (case err2 of
                      Some err \<Rightarrow> [Logged Error ''Unable to fetch PR-%d from %s/%s.'']
                    | None \<Rightarrow> [])
        in
        case pr of
          None \<Rightarrow> (Panicked, h2)
        | Some p \<Rightarrow>
            let ref = branch_SHA (pr_Head p) in
            case GetCombinedStatus gc h2 org repo ref of (combined, err3) \<Rightarrow>
            let h3 = h2 @ [GetCombinedStatusCall org repo ref]
                     @ (case err3 of
                          Some err \<Rightarrow> [Logged Error ''Failed to get statuses on %s/%s#%d'']
                        | None \<Rightarrow> [])
            in
            case combined of
              None \<Rightarrow> (Panicked, h3)
            | Some c \<Rightarrow>
                (Returned None,
                 statusLoop im gc org repo number hasCLAYes hasCLANo (Statuses c) h3))"

section \<open>Notions used to state the properties\<close>

subsection \<open>What the client answered\<close>

text \<open>
  The answer to the call of line 133, when the body of the loop over the issues starts in
  history \<open>h\<close>.
\<close>

definition prFetchedFor ::
  "gitHubClient \<Rightarrow> StatusEvent \<Rightarrow> Issue \<Rightarrow> event list \<Rightarrow> PullRequest option \<times> error option" where
  "prFetchedFor gc se issue h =
     GetPullRequest gc (h @ [Logged Info ''PR labels may be out of date. Getting pull request info.''])
       (user_Login (repo_Owner (se_Repo se))) (repo_Name (se_Repo se)) (issue_Number issue)"

text \<open>
  The history in which the attempt number \<open>k\<close> (from 0) of the search is made, when the
  attempts before it found nothing.
\<close>

fun attemptHistory :: "StatusEvent \<Rightarrow> nat \<Rightarrow> event list" where
  "attemptHistory se 0 = [Logged Info ''Searching for PRs matching the commit.'']"
| "attemptHistory se (Suc k) =
     attemptHistory se k @ [FindIssuesCall (searchQuery se) '''' False, Sleep 10]"

definition searchAnswer :: "gitHubClient \<Rightarrow> StatusEvent \<Rightarrow> nat \<Rightarrow> Issue list \<times> error option" where
  "searchAnswer gc se k = FindIssues gc (attemptHistory se k) (searchQuery se) '''' False"

text \<open>
  The answers to the three fetches of \<^verbatim>\<open>handleComment\<close> (lines 192, 206 and 213) and the
  histories after each of them, for an event that passes the checks of lines 177 to 183.
\<close>

definition labelsFetched :: "gitHubClient \<Rightarrow> GenericCommentEvent \<Rightarrow> Label list \<times> error option" where
  "labelsFetched gc e =
     GetIssueLabels gc [] (user_Login (repo_Owner (ce_Repo e))) (repo_Name (ce_Repo e)) (ce_Number e)"

definition afterLabels :: "gitHubClient \<Rightarrow> GenericCommentEvent \<Rightarrow> event list" where
  "afterLabels gc e =
     [GetIssueLabelsCall (user_Login (repo_Owner (ce_Repo e))) (repo_Name (ce_Repo e)) (ce_Number e)]
     @ (case snd (labelsFetched gc e) of
          Some err \<Rightarrow> [Logged Error ''Failed to get the labels on %s/%s#%d.'']
        | None \<Rightarrow> [])"

definition commentFlags :: "imported \<Rightarrow> gitHubClient \<Rightarrow> GenericCommentEvent \<Rightarrow> bool \<times> bool" where
  "commentFlags im gc e = scanLabels im (fst (labelsFetched gc e)) (False, False)"

definition prFetched ::
  "gitHubClient \<Rightarrow> GenericCommentEvent \<Rightarrow> PullRequest option \<times> error option" where
  "prFetched gc e =
     GetPullRequest gc (afterLabels gc e)
       (user_Login (repo_Owner (ce_Repo e))) (repo_Name (ce_Repo e)) (ce_Number e)"

definition afterPR :: "gitHubClient \<Rightarrow> GenericCommentEvent \<Rightarrow> event list" where
  "afterPR gc e =
     afterLabels gc e
     @ [GetPullRequestCall (user_Login (repo_Owner (ce_Repo e))) (repo_Name (ce_Repo e)) (ce_Number e)]
     @ (case snd (prFetched gc e) of
          Some err \<Rightarrow> [Logged Error ''Unable to fetch PR-%d from %s/%s.'']
        | None \<Rightarrow> [])"

definition statusFetched ::
  "gitHubClient \<Rightarrow> GenericCommentEvent \<Rightarrow> PullRequest \<Rightarrow> CombinedStatus option \<times> error option" where
  "statusFetched gc e p =
     GetCombinedStatus gc (afterPR gc e)
       (user_Login (repo_Owner (ce_Repo e))) (repo_Name (ce_Repo e)) (branch_SHA (pr_Head p))"

definition afterStatus :: "gitHubClient \<Rightarrow> GenericCommentEvent \<Rightarrow> PullRequest \<Rightarrow> event list" where
  "afterStatus gc e p =
     afterPR gc e
     @ [GetCombinedStatusCall (user_Login (repo_Owner (ce_Repo e))) (repo_Name (ce_Repo e))
          (branch_SHA (pr_Head p))]
     @ (case snd (statusFetched gc e p) of
          Some err \<Rightarrow> [Logged Error ''Failed to get statuses on %s/%s#%d'']
        | None \<Rightarrow> [])"

text \<open>The checks of lines 177 to 183.\<close>

definition triggered :: "GenericCommentEvent \<Rightarrow> bool" where
  "triggered e =
     (ce_IssueState e = ''open'' \<and> ce_Action e = GenericCommentActionCreated
      \<and> checkCLARe_MatchString (ce_Body e))"

text \<open>The status that decides in the comment path: the first one of the context EasyCLA.\<close>

definition claStatus :: "Status list \<Rightarrow> Status option" where
  "claStatus sts = find (\<lambda>s. status_Context s = claContextName) sts"

subsection \<open>The trigger in the words of the specification\<close>

text \<open>
  The specification describes the trigger as the literal command on its own line,
  case-insensitive, optionally surrounded by whitespace. These definitions follow those
  words, not the regular expression: the body is cut into lines at the newlines, a line
  is trimmed of whitespace at both ends, and what is left is compared with the command
  up to case.
\<close>

fun spec_lines :: "string \<Rightarrow> string list" where
  "spec_lines [] = [[]]"
| "spec_lines (c # cs) =
     (if c = newline then [] # spec_lines cs
      else (case spec_lines cs of [] \<Rightarrow> [[c]] | l # ls \<Rightarrow> (c # l) # ls))"

definition spec_whitespace :: "char \<Rightarrow> bool" where
  "spec_whitespace c =
     (c = CHR 0x09 \<or> c = CHR 0x0A \<or> c = CHR 0x0B \<or> c = CHR 0x0C \<or> c = CHR 0x0D \<or> c = CHR '' '')"

definition spec_trim :: "string \<Rightarrow> string" where
  "spec_trim s = rev (dropWhile spec_whitespace (rev (dropWhile spec_whitespace s)))"

definition spec_isCommand :: "string \<Rightarrow> bool" where
  "spec_isCommand s = (matchLiteral checkCLALiteral s = Some [])"

definition spec_trigger :: "string \<Rightarrow> bool" where
  "spec_trigger body = list_ex (\<lambda>l. spec_isCommand (spec_trim l)) (spec_lines body)"

subsection \<open>Label state and verdict\<close>

text \<open>
  The verdict already matches the label state: success with only the positive label, or
  failure or error with only the negative one.
\<close>

definition upToDate :: "bool \<Rightarrow> bool \<Rightarrow> string \<Rightarrow> bool" where
  "upToDate hasYes hasNo state =
     (if state = StatusSuccess then hasYes \<and> \<not> hasNo
      else if state = StatusFailure \<or> state = StatusError then hasNo \<and> \<not> hasYes
      else False)"

section \<open>Example inputs\<close>

text \<open>
  An instance of the parameter \<^verbatim>\<open>Issue.HasLabel\<close> for the examples: it looks for a label
  of exactly the given name. The examples spell the label names exactly, so that an
  implementation that compares the names up to case answers the same on them.
\<close>

definition hasLabelByName :: "Issue \<Rightarrow> string \<Rightarrow> bool" where
  "hasLabelByName issue name = list_ex (\<lambda>l. label_Name l = name) (issue_Labels issue)"

definition im0 :: imported where
  "im0 = \<lparr>labels_ClaYes = ''cncf-cla: yes'', labels_ClaNo = ''cncf-cla: no'',
          Issue_HasLabel = hasLabelByName\<rparr>"

definition repo0 :: Repo where
  "repo0 = \<lparr>repo_Owner = \<lparr>user_Login = ''org''\<rparr>, repo_Name = ''repo''\<rparr>"

text \<open>A client that answers the same at every call, and whose label calls succeed.\<close>

definition fakeClient ::
  "Issue list \<times> error option \<Rightarrow> PullRequest option \<times> error option \<Rightarrow> Label list \<times> error option
     \<Rightarrow> CombinedStatus option \<times> error option \<Rightarrow> gitHubClient" where
  "fakeClient issues pr labels combined =
     \<lparr>AddLabel = (\<lambda>h org repo n l. None),
      RemoveLabel = (\<lambda>h org repo n l. None),
      GetPullRequest = (\<lambda>h org repo n. pr),
      FindIssues = (\<lambda>h q s a. issues),
      GetIssueLabels = (\<lambda>h org repo n. labels),
      GetCombinedStatus = (\<lambda>h org repo ref. combined)\<rparr>"

definition labelYes :: Label where
  "labelYes = \<lparr>label_Name = ''cncf-cla: yes''\<rparr>"

definition labelNo :: Label where
  "labelNo = \<lparr>label_Name = ''cncf-cla: no''\<rparr>"

definition issue0 :: "Label list \<Rightarrow> Issue" where
  "issue0 ls = \<lparr>issue_Number = 7, issue_Labels = ls\<rparr>"

definition pr0 :: "string \<Rightarrow> PullRequest" where
  "pr0 sha = \<lparr>pr_Number = 7, pr_Head = \<lparr>branch_SHA = sha\<rparr>\<rparr>"

definition se0 :: "string \<Rightarrow> string \<Rightarrow> StatusEvent" where
  "se0 state ctx = \<lparr>se_SHA = ''abc'', se_State = state, se_Context = ctx, se_Repo = repo0\<rparr>"

definition ce0 :: "string \<Rightarrow> GenericCommentEvent" where
  "ce0 body =
     \<lparr>ce_IssueState = ''open'', ce_Action = GenericCommentActionCreated, ce_Body = body,
      ce_Repo = repo0, ce_Number = 7\<rparr>"

definition cla0 :: "string \<Rightarrow> CombinedStatus" where
  "cla0 state =
     \<lparr>Statuses = [\<lparr>status_State = ''success'', status_Context = ''tide''\<rparr>,
                  \<lparr>status_State = state, status_Context = ''EasyCLA''\<rparr>]\<rparr>"

definition boom :: error where
  "boom = Errorf ''boom''"

section \<open>Lemmas about the status path\<close>

lemma searches_append: "searches (xs @ ys) = searches xs @ searches ys"
  by (simp add: searches_def)

lemma mutations_append: "mutations (xs @ ys) = mutations xs @ mutations ys"
  by (simp add: mutations_def)

lemma searches_gc_RemoveLabel: "searches (gc_RemoveLabel gc org repo n l h) = searches h"
  by (simp add: gc_RemoveLabel_def searches_def split: option.split)

lemma searches_gc_AddLabel: "searches (gc_AddLabel gc org repo n l h) = searches h"
  by (simp add: gc_AddLabel_def searches_def split: option.split)

lemma searches_handleIssue: "searches (snd (handleIssue im gc se issue h)) = searches h"
  by (simp add: handleIssue_def Let_def searches_gc_RemoveLabel searches_gc_AddLabel
        searches_append split: prod.split option.split)
     (simp add: searches_def)

lemma searches_handleIssues: "searches (snd (handleIssues im gc se issues h)) = searches h"
proof (induction issues arbitrary: h)
  case Nil
  show ?case by simp
next
  case (Cons issue rest)
  obtain b h' where step: "handleIssue im gc se issue h = (b, h')"
    by (cases "handleIssue im gc se issue h")
  have "searches h' = searches h"
    using searches_handleIssue [of im gc se issue h] step by simp
  then show ?case
    using Cons.IH [of h'] step by (cases b) simp_all
qed

lemma findLoop_first:
  "FindIssues gc h q '''' False = (issues, err) \<Longrightarrow> issues \<noteq> [] \<or> err \<noteq> None \<Longrightarrow> 0 < n \<Longrightarrow>
   findLoop gc q n h
     = (case err of
          Some e \<Rightarrow> (Inl (Wrapf ''error searching for issues matching commit'' e),
                     h @ [FindIssuesCall q '''' False])
        | None \<Rightarrow> (Inr issues, h @ [FindIssuesCall q '''' False]))"
  by (cases n) (auto split: option.split)

lemma findLoop_skip:
  "(\<forall>j<k. searchAnswer gc se (i + j) = ([], None)) \<Longrightarrow> k \<le> n \<Longrightarrow>
   findLoop gc (searchQuery se) n (attemptHistory se i)
     = findLoop gc (searchQuery se) (n - k) (attemptHistory se (i + k))"
proof (induction k arbitrary: i n)
  case 0
  show ?case by simp
next
  case (Suc k)
  from Suc.prems(2) obtain m where n: "n = Suc m" and km: "k \<le> m"
    by (cases n) auto
  have first: "searchAnswer gc se i = ([], None)"
    using Suc.prems(1) [rule_format, of 0] by simp
  have rest: "\<forall>j<k. searchAnswer gc se (Suc i + j) = ([], None)"
    using Suc.prems(1) by auto
  have "findLoop gc (searchQuery se) n (attemptHistory se i)
          = findLoop gc (searchQuery se) m (attemptHistory se (Suc i))"
    using first by (simp add: n searchAnswer_def)
  also have "\<dots> = findLoop gc (searchQuery se) (m - k) (attemptHistory se (Suc i + k))"
    using Suc.IH [OF rest km] .
  finally show ?case by (simp add: n)
qed

lemma length_searches_attemptHistory: "length (searches (attemptHistory se k)) = k"
  by (induction k) (simp_all add: searches_def)

lemma handle_checked:
  "se_State se \<noteq> '''' \<Longrightarrow> se_Context se = claContextName \<Longrightarrow> se_State se \<noteq> StatusPending \<Longrightarrow>
   handle im gc se =
     (case findLoop gc (searchQuery se) maxRetries (attemptHistory se 0) of
        (Inl err, h) \<Rightarrow> (Returned (Some err), h)
      | (Inr issues, h) \<Rightarrow>
          handleIssues im gc se issues (h @ [Logged Info ''Found %d PRs matching commit.'']))"
  by (simp add: handle_def claContextName_def)

lemma mutations_gc_RemoveLabel:
  "mutations (gc_RemoveLabel gc org repo n l h) = mutations h @ [RemoveLabelCall org repo n l]"
  by (simp add: gc_RemoveLabel_def mutations_def split: option.split)

lemma mutations_gc_AddLabel:
  "mutations (gc_AddLabel gc org repo n l h) = mutations h @ [AddLabelCall org repo n l]"
  by (simp add: gc_AddLabel_def mutations_def split: option.split)

lemma gc_RemoveLabel_extends: "\<exists>evs. gc_RemoveLabel gc org repo n l h = h @ evs"
  by (simp add: gc_RemoveLabel_def split: option.split)

lemma gc_AddLabel_extends: "\<exists>evs. gc_AddLabel gc org repo n l h = h @ evs"
  by (simp add: gc_AddLabel_def split: option.split)

lemma handleIssue_extends: "\<exists>evs. snd (handleIssue im gc se issue h) = h @ evs"
  by (simp add: handleIssue_def Let_def gc_AddLabel_def gc_RemoveLabel_def
        split: prod.split option.split)

lemma handleIssue_stale:
  "prFetchedFor gc se issue h = (Some pr, err) \<Longrightarrow> branch_SHA (pr_Head pr) \<noteq> se_SHA se \<Longrightarrow>
   fst (handleIssue im gc se issue h) = False
   \<and> mutations (snd (handleIssue im gc se issue h)) = mutations h"
  by (cases err) (simp_all add: handleIssue_def prFetchedFor_def Let_def mutations_def)

lemma upToDate_cases:
  "upToDate y n st \<Longrightarrow>
   (st = StatusSuccess \<and> y \<and> \<not> n)
   \<or> (st \<noteq> StatusSuccess \<and> (st = StatusFailure \<or> st = StatusError) \<and> n \<and> \<not> y)"
  unfolding upToDate_def by (cases "st = StatusSuccess") (auto split: if_splits)

lemma handleIssue_upToDate:
  assumes "upToDate (Issue_HasLabel im issue (labels_ClaYes im))
             (Issue_HasLabel im issue (labels_ClaNo im)) (se_State se)"
  shows "handleIssue im gc se issue h = (False, h @ [Logged Info ''PR has up-to-date %s label.''])"
proof -
  consider "se_State se = StatusSuccess" "Issue_HasLabel im issue (labels_ClaYes im)"
    | "se_State se \<noteq> StatusSuccess" "se_State se = StatusFailure \<or> se_State se = StatusError"
      "Issue_HasLabel im issue (labels_ClaNo im)"
    using upToDate_cases [OF assms] by blast
  then show ?thesis
    by cases (simp_all add: handleIssue_def Let_def)
qed

lemma status_distinct:
  "StatusSuccess \<noteq> StatusFailure" "StatusSuccess \<noteq> StatusError"
  "StatusSuccess \<noteq> StatusPending" "StatusFailure \<noteq> StatusError"
  "StatusFailure \<noteq> StatusPending" "StatusError \<noteq> StatusPending"
  by (simp_all add: StatusSuccess_def StatusFailure_def StatusError_def StatusPending_def)

lemma handleIssue_applies:
  assumes fetched: "prFetchedFor gc se issue h = (Some pr, None)"
    and head: "branch_SHA (pr_Head pr) = se_SHA se"
    and g1: "\<not> (Issue_HasLabel im issue (labels_ClaYes im) \<and> se_State se = StatusSuccess)"
    and g2: "\<not> (Issue_HasLabel im issue (labels_ClaNo im)
               \<and> (se_State se = StatusFailure \<or> se_State se = StatusError))"
  shows "handleIssue im gc se issue h =
     (False,
      if se_State se = StatusSuccess then
        gc_AddLabel gc (user_Login (repo_Owner (se_Repo se))) (repo_Name (se_Repo se))
          (pr_Number pr) (labels_ClaYes im)
          (if Issue_HasLabel im issue (labels_ClaNo im) then
             gc_RemoveLabel gc (user_Login (repo_Owner (se_Repo se))) (repo_Name (se_Repo se))
               (pr_Number pr) (labels_ClaNo im)
               (h @ [Logged Info ''PR labels may be out of date. Getting pull request info.'',
                     GetPullRequestCall (user_Login (repo_Owner (se_Repo se)))
                       (repo_Name (se_Repo se)) (issue_Number issue)])
           else h @ [Logged Info ''PR labels may be out of date. Getting pull request info.'',
                     GetPullRequestCall (user_Login (repo_Owner (se_Repo se)))
                       (repo_Name (se_Repo se)) (issue_Number issue)])
      else
        gc_AddLabel gc (user_Login (repo_Owner (se_Repo se))) (repo_Name (se_Repo se))
          (pr_Number pr) (labels_ClaNo im)
          (if Issue_HasLabel im issue (labels_ClaYes im) then
             gc_RemoveLabel gc (user_Login (repo_Owner (se_Repo se))) (repo_Name (se_Repo se))
               (pr_Number pr) (labels_ClaYes im)
               (h @ [Logged Info ''PR labels may be out of date. Getting pull request info.'',
                     GetPullRequestCall (user_Login (repo_Owner (se_Repo se)))
                       (repo_Name (se_Repo se)) (issue_Number issue)])
           else h @ [Logged Info ''PR labels may be out of date. Getting pull request info.'',
                     GetPullRequestCall (user_Login (repo_Owner (se_Repo se)))
                       (repo_Name (se_Repo se)) (issue_Number issue)]))"
proof -
  have got: "GetPullRequest gc
      (h @ [Logged Info ''PR labels may be out of date. Getting pull request info.''])
      (user_Login (repo_Owner (se_Repo se))) (repo_Name (se_Repo se)) (issue_Number issue)
    = (Some pr, None)"
    using fetched by (simp add: prFetchedFor_def)
  show ?thesis
  proof (cases "se_State se = StatusSuccess")
    case True
    then have "\<not> Issue_HasLabel im issue (labels_ClaYes im)" using g1 by simp
    then show ?thesis
      using True got head by (simp add: handleIssue_def Let_def status_distinct)
  next
    case False
    then show ?thesis
      using got head by (simp add: handleIssue_def Let_def g2)
  qed
qed

lemma handleIssue_mutations:
  assumes "snd (handleIssue im gc se issue h) = h @ evs"
    and "mutations (snd (handleIssue im gc se issue h)) = mutations h @ ms"
  shows "mutations evs = ms"
  using assms by (simp add: mutations_append)

lemma mutations_fetch_prefix:
  "mutations (h @ [Logged l m, GetPullRequestCall org repo k]) = mutations h"
  by (simp add: mutations_def)

lemma handleIssue_success_removes:
  assumes "prFetchedFor gc se issue h = (Some pr, None)" "branch_SHA (pr_Head pr) = se_SHA se"
    and "se_State se = StatusSuccess"
    and "Issue_HasLabel im issue (labels_ClaNo im)" "\<not> Issue_HasLabel im issue (labels_ClaYes im)"
  shows "\<exists>evs. handleIssue im gc se issue h = (False, h @ evs)
     \<and> mutations evs =
         [RemoveLabelCall (user_Login (repo_Owner (se_Repo se))) (repo_Name (se_Repo se))
            (pr_Number pr) (labels_ClaNo im),
          AddLabelCall (user_Login (repo_Owner (se_Repo se))) (repo_Name (se_Repo se))
            (pr_Number pr) (labels_ClaYes im)]"
proof -
  have neq: "StatusSuccess \<noteq> StatusFailure" "StatusSuccess \<noteq> StatusError"
    by (simp_all add: StatusSuccess_def StatusFailure_def StatusError_def)
  have run: "handleIssue im gc se issue h =
     (False,
      gc_AddLabel gc (user_Login (repo_Owner (se_Repo se))) (repo_Name (se_Repo se))
        (pr_Number pr) (labels_ClaYes im)
        (gc_RemoveLabel gc (user_Login (repo_Owner (se_Repo se))) (repo_Name (se_Repo se))
           (pr_Number pr) (labels_ClaNo im)
           (h @ [Logged Info ''PR labels may be out of date. Getting pull request info.'',
                 GetPullRequestCall (user_Login (repo_Owner (se_Repo se)))
                   (repo_Name (se_Repo se)) (issue_Number issue)])))"
    using handleIssue_applies [OF assms(1,2), of im] assms(3-5) neq by simp
  obtain evs where evs: "snd (handleIssue im gc se issue h) = h @ evs"
    using handleIssue_extends by blast
  have "mutations (snd (handleIssue im gc se issue h)) = mutations h @
         [RemoveLabelCall (user_Login (repo_Owner (se_Repo se))) (repo_Name (se_Repo se))
            (pr_Number pr) (labels_ClaNo im),
          AddLabelCall (user_Login (repo_Owner (se_Repo se))) (repo_Name (se_Repo se))
            (pr_Number pr) (labels_ClaYes im)]"
    by (simp add: run mutations_gc_AddLabel mutations_gc_RemoveLabel mutations_fetch_prefix)
  then have "mutations evs =
         [RemoveLabelCall (user_Login (repo_Owner (se_Repo se))) (repo_Name (se_Repo se))
            (pr_Number pr) (labels_ClaNo im),
          AddLabelCall (user_Login (repo_Owner (se_Repo se))) (repo_Name (se_Repo se))
            (pr_Number pr) (labels_ClaYes im)]"
    using handleIssue_mutations [OF evs] by blast
  moreover have "handleIssue im gc se issue h = (False, h @ evs)"
    using run evs by simp
  ultimately show ?thesis by blast
qed

lemma handleIssue_failure_removes:
  assumes "prFetchedFor gc se issue h = (Some pr, None)" "branch_SHA (pr_Head pr) = se_SHA se"
    and "se_State se = StatusFailure \<or> se_State se = StatusError"
    and "Issue_HasLabel im issue (labels_ClaYes im)" "\<not> Issue_HasLabel im issue (labels_ClaNo im)"
  shows "\<exists>evs. handleIssue im gc se issue h = (False, h @ evs)
     \<and> mutations evs =
         [RemoveLabelCall (user_Login (repo_Owner (se_Repo se))) (repo_Name (se_Repo se))
            (pr_Number pr) (labels_ClaYes im),
          AddLabelCall (user_Login (repo_Owner (se_Repo se))) (repo_Name (se_Repo se))
            (pr_Number pr) (labels_ClaNo im)]"
proof -
  have neq: "StatusSuccess \<noteq> StatusFailure" "StatusSuccess \<noteq> StatusError"
    by (simp_all add: StatusSuccess_def StatusFailure_def StatusError_def)
  then have ns: "se_State se \<noteq> StatusSuccess" using assms(3) by auto
  have run: "handleIssue im gc se issue h =
     (False,
      gc_AddLabel gc (user_Login (repo_Owner (se_Repo se))) (repo_Name (se_Repo se))
        (pr_Number pr) (labels_ClaNo im)
        (gc_RemoveLabel gc (user_Login (repo_Owner (se_Repo se))) (repo_Name (se_Repo se))
           (pr_Number pr) (labels_ClaYes im)
           (h @ [Logged Info ''PR labels may be out of date. Getting pull request info.'',
                 GetPullRequestCall (user_Login (repo_Owner (se_Repo se)))
                   (repo_Name (se_Repo se)) (issue_Number issue)])))"
    using handleIssue_applies [OF assms(1,2), of im] assms(4,5) ns by simp
  obtain evs where evs: "snd (handleIssue im gc se issue h) = h @ evs"
    using handleIssue_extends by blast
  have "mutations (snd (handleIssue im gc se issue h)) = mutations h @
         [RemoveLabelCall (user_Login (repo_Owner (se_Repo se))) (repo_Name (se_Repo se))
            (pr_Number pr) (labels_ClaYes im),
          AddLabelCall (user_Login (repo_Owner (se_Repo se))) (repo_Name (se_Repo se))
            (pr_Number pr) (labels_ClaNo im)]"
    by (simp add: run mutations_gc_AddLabel mutations_gc_RemoveLabel mutations_fetch_prefix)
  then have "mutations evs =
         [RemoveLabelCall (user_Login (repo_Owner (se_Repo se))) (repo_Name (se_Repo se))
            (pr_Number pr) (labels_ClaYes im),
          AddLabelCall (user_Login (repo_Owner (se_Repo se))) (repo_Name (se_Repo se))
            (pr_Number pr) (labels_ClaNo im)]"
    using handleIssue_mutations [OF evs] by blast
  moreover have "handleIssue im gc se issue h = (False, h @ evs)"
    using run evs by simp
  ultimately show ?thesis by blast
qed

lemma handleIssue_own_label_present:
  assumes "(se_State se = StatusSuccess \<and> Issue_HasLabel im issue (labels_ClaYes im))
     \<or> ((se_State se = StatusFailure \<or> se_State se = StatusError)
         \<and> Issue_HasLabel im issue (labels_ClaNo im))"
  shows "handleIssue im gc se issue h = (False, h @ [Logged Info ''PR has up-to-date %s label.''])"
proof -
  consider "se_State se = StatusSuccess" "Issue_HasLabel im issue (labels_ClaYes im)"
    | "se_State se = StatusFailure \<or> se_State se = StatusError"
      "Issue_HasLabel im issue (labels_ClaNo im)"
    using assms by blast
  then show ?thesis
    by cases (simp_all add: handleIssue_def Let_def)
qed

section \<open>Lemmas about the comment path\<close>

lemma claStatus_Cons:
  "claStatus (a # sts) = (if status_Context a = claContextName then Some a else claStatus sts)"
  by (simp add: claStatus_def)

lemma claStatus_Nil: "claStatus [] = None"
  by (simp add: claStatus_def)

lemma claStatus_context: "claStatus sts = Some s \<Longrightarrow> status_Context s = claContextName"
proof (induction sts)
  case Nil
  then show ?case by (simp add: claStatus_Nil)
next
  case (Cons a sts)
  then show ?case by (cases "status_Context a = claContextName") (simp_all add: claStatus_Cons)
qed

lemma statusLoop_decided:
  "claStatus sts = Some s \<Longrightarrow>
   statusLoop im gc org repo number y n sts h = statusLoop im gc org repo number y n [s] h"
proof (induction sts)
  case Nil
  then show ?case by (simp add: claStatus_Nil)
next
  case (Cons a sts)
  show ?case
  proof (cases "status_Context a = claContextName")
    case True
    then have "s = a" using Cons.prems by (simp add: claStatus_Cons)
    then show ?thesis using True by simp
  next
    case False
    then have "claStatus sts = Some s" using Cons.prems by (simp add: claStatus_Cons)
    then have ctx: "status_Context s = claContextName" by (rule claStatus_context)
    show ?thesis
      using False ctx Cons.IH [OF \<open>claStatus sts = Some s\<close>] by simp
  qed
qed

lemma handleComment_untriggered: "\<not> triggered e \<Longrightarrow> handleComment im gc e = (Returned None, [])"
  by (auto simp add: handleComment_def triggered_def)

lemma handleComment_triggered:
  "triggered e \<Longrightarrow>
   handleComment im gc e =
     (case fst (prFetched gc e) of
        None \<Rightarrow> (Panicked, afterPR gc e)
      | Some p \<Rightarrow>
          (case fst (statusFetched gc e p) of
             None \<Rightarrow> (Panicked, afterStatus gc e p)
           | Some c \<Rightarrow>
               (Returned None,
                statusLoop im gc (user_Login (repo_Owner (ce_Repo e))) (repo_Name (ce_Repo e))
                  (ce_Number e) (fst (commentFlags im gc e)) (snd (commentFlags im gc e))
                  (Statuses c) (afterStatus gc e p))))"
  by (simp add: handleComment_def triggered_def Let_def case_prod_beta prFetched_def afterPR_def
        statusFetched_def afterStatus_def commentFlags_def labelsFetched_def afterLabels_def
        split: option.split)

lemma mutations_afterStatus: "mutations (afterStatus gc e p) = []"
  by (simp add: afterStatus_def afterPR_def afterLabels_def mutations_def split: option.split)

lemma handleComment_decided:
  "triggered e \<Longrightarrow> commentFlags im gc e = (y, n) \<Longrightarrow> fst (prFetched gc e) = Some p \<Longrightarrow>
   fst (statusFetched gc e p) = Some c \<Longrightarrow> claStatus (Statuses c) = Some s \<Longrightarrow>
   handleComment im gc e =
     (Returned None,
      statusLoop im gc (user_Login (repo_Owner (ce_Repo e))) (repo_Name (ce_Repo e))
        (ce_Number e) y n [s] (afterStatus gc e p))"
  by (simp add: handleComment_triggered statusLoop_decided)

lemma triggered_ce0: "triggered (ce0 ''/check-cla'')"
  by (simp add: triggered_def ce0_def checkCLARe_MatchString_def matchHere_def
        checkCLALiteral_def)

lemma claStatus_cla0:
  "claStatus (Statuses (cla0 st)) = Some \<lparr>status_State = st, status_Context = ''EasyCLA''\<rparr>"
  by (simp add: claStatus_def cla0_def claContextName_def)

lemma fetched_fake:
  "labelsFetched (fakeClient fi gp gl gs) e = gl"
  "prFetched (fakeClient fi gp gl gs) e = gp"
  "statusFetched (fakeClient fi gp gl gs) e p = gs"
  "prFetchedFor (fakeClient fi gp gl gs) se issue h = gp"
  "searchAnswer (fakeClient fi gp gl gs) se k = fi"
  by (simp_all add: labelsFetched_def prFetched_def statusFetched_def prFetchedFor_def
        searchAnswer_def fakeClient_def)

lemma statusLoop_success:
  "status_Context s = claContextName \<Longrightarrow> status_State s = StatusSuccess \<Longrightarrow>
   mutations (statusLoop im gc org repo number y n [s] h) =
     mutations h @ (if n then [RemoveLabelCall org repo number (labels_ClaNo im)] else [])
       @ (if y then [] else [AddLabelCall org repo number (labels_ClaYes im)])"
  by (simp add: Let_def mutations_gc_AddLabel mutations_gc_RemoveLabel)

lemma statusLoop_failure:
  "status_Context s = claContextName \<Longrightarrow> status_State s = StatusFailure \<Longrightarrow>
   mutations (statusLoop im gc org repo number y n [s] h) =
     mutations h @ (if y then [RemoveLabelCall org repo number (labels_ClaYes im)] else [])
       @ (if n then [] else [AddLabelCall org repo number (labels_ClaNo im)])"
  by (simp add: Let_def mutations_gc_AddLabel mutations_gc_RemoveLabel StatusFailure_def
        StatusSuccess_def)

lemma statusLoop_other:
  "status_Context s = claContextName \<Longrightarrow> status_State s \<noteq> StatusSuccess \<Longrightarrow>
   status_State s \<noteq> StatusFailure \<Longrightarrow>
   statusLoop im gc org repo number y n [s] h = h"
  by simp

lemma flags_fake:
  "commentFlags im0 (fakeClient fi gp ([], e1) gs) e = (False, False)"
  "commentFlags im0 (fakeClient fi gp ([labelYes], e1) gs) e = (True, False)"
  "commentFlags im0 (fakeClient fi gp ([labelNo], e1) gs) e = (False, True)"
  "commentFlags im0 (fakeClient fi gp ([labelYes, labelNo], e1) gs) e = (True, True)"
  by (simp_all add: commentFlags_def fetched_fake im0_def labelYes_def labelNo_def)

lemma label_calls_fake:
  "AddLabel (fakeClient fi gp gl gs) h org repo k l = None"
  "RemoveLabel (fakeClient fi gp gl gs) h org repo k l = None"
  by (simp_all add: fakeClient_def)

section \<open>The search for the pull requests of a commit\<close>

text \<open>
  Claim C6. For a status event that passes the early checks (state and context not empty,
  context EasyCLA, state not pending): if every one of the attempts of the search returns
  no issue and no error, \<^verbatim>\<open>handle\<close> makes exactly 5 search calls, sleeping after each,
  and returns \<^verbatim>\<open>nil\<close>; if the first attempt returns at least one issue, exactly one
  search call is made.
\<close>

theorem search_retry_bound:
  "se_State se \<noteq> '''' \<Longrightarrow> se_Context se = claContextName \<Longrightarrow> se_State se \<noteq> StatusPending \<Longrightarrow>
   ((\<forall>k<maxRetries. searchAnswer gc se k = ([], None)) \<longrightarrow>
      handle im gc se =
        (Returned None,
         attemptHistory se maxRetries @ [Logged Info ''Found %d PRs matching commit.''])
      \<and> length (searches (snd (handle im gc se))) = 5)
   \<and> (fst (searchAnswer gc se 0) \<noteq> [] \<longrightarrow> length (searches (snd (handle im gc se))) = 1)"
proof (intro conjI impI)
  assume pre: "se_State se \<noteq> ''''" "se_Context se = claContextName"
    "se_State se \<noteq> StatusPending"
  {
    assume empty: "\<forall>k<maxRetries. searchAnswer gc se k = ([], None)"
    have "findLoop gc (searchQuery se) maxRetries (attemptHistory se 0)
            = findLoop gc (searchQuery se) 0 (attemptHistory se maxRetries)"
      using findLoop_skip [of maxRetries gc se 0 maxRetries] empty by simp
    then show res: "handle im gc se =
        (Returned None,
         attemptHistory se maxRetries @ [Logged Info ''Found %d PRs matching commit.''])"
      using pre by (simp add: handle_checked)
    show "length (searches (snd (handle im gc se))) = 5"
      by (simp add: res searches_append length_searches_attemptHistory)
         (simp add: searches_def maxRetries_def)
  }
  {
    assume found: "fst (searchAnswer gc se 0) \<noteq> []"
    obtain issues err where ans: "searchAnswer gc se 0 = (issues, err)"
      by (cases "searchAnswer gc se 0")
    have ne: "issues \<noteq> []" using found ans by simp
    have "findLoop gc (searchQuery se) maxRetries (attemptHistory se 0)
            = (case err of
                 Some e \<Rightarrow> (Inl (Wrapf ''error searching for issues matching commit'' e),
                            attemptHistory se 0 @ [FindIssuesCall (searchQuery se) '''' False])
               | None \<Rightarrow> (Inr issues,
                          attemptHistory se 0 @ [FindIssuesCall (searchQuery se) '''' False]))"
      using findLoop_first [of gc "attemptHistory se 0" "searchQuery se" issues err maxRetries]
        ans ne by (simp add: searchAnswer_def maxRetries_def)
    then show "length (searches (snd (handle im gc se))) = 1"
      using pre
      by (cases err)
         (simp_all add: handle_checked searches_handleIssues length_searches_attemptHistory
            searches_append, simp_all add: searches_def)
  }
qed

theorem search_retry_bound_witness:
  "handle im0 (fakeClient ([], None) (None, None) ([], None) (None, None)) (se0 ''success'' ''EasyCLA'')
     = (Returned None,
        attemptHistory (se0 ''success'' ''EasyCLA'') maxRetries
          @ [Logged Info ''Found %d PRs matching commit.''])
   \<and> length (searches (snd (handle im0 (fakeClient ([], None) (None, None) ([], None) (None, None))
         (se0 ''success'' ''EasyCLA'')))) = 5
   \<and> length (searches (snd (handle im0
         (fakeClient ([issue0 [labelNo]], None) (Some (pr0 ''abc''), None) ([], None) (None, None))
         (se0 ''success'' ''EasyCLA'')))) = 1"
proof -
  let ?se = "se0 ''success'' ''EasyCLA''"
  let ?none = "fakeClient ([], None) (None, None) ([], None) (None, None)"
  let ?one = "fakeClient ([issue0 [labelNo]], None) (Some (pr0 ''abc''), None) ([], None) (None, None)"
  have pre: "se_State ?se \<noteq> ''''" "se_Context ?se = claContextName"
    "se_State ?se \<noteq> StatusPending"
    by (simp_all add: se0_def claContextName_def StatusPending_def)
  have no_issue: "\<forall>k<maxRetries. searchAnswer ?none ?se k = ([], None)"
    by (simp add: searchAnswer_def fakeClient_def)
  have found: "fst (searchAnswer ?one ?se 0) \<noteq> []"
    by (simp add: searchAnswer_def fakeClient_def)
  note all_empty = search_retry_bound [OF pre, of ?none im0, THEN conjunct1, THEN mp, OF no_issue]
  note first_found = search_retry_bound [OF pre, of ?one im0, THEN conjunct2, THEN mp, OF found]
  show ?thesis
    by (intro conjI)
       (rule all_empty [THEN conjunct1], rule all_empty [THEN conjunct2], rule first_found)
qed

text \<open>
  Claim C5 says that an error of the search is logged and is not returned to the caller.
  The code returns it: with a search that fails, \<^verbatim>\<open>handle\<close> returns the error of
  the search, wrapped, after one search call, and logs nothing about it.
\<close>

theorem search_error_counterexample:
  "handle im0 (fakeClient ([], Some boom) (None, None) ([], None) (None, None))
     (se0 ''success'' ''EasyCLA'')
   = (Returned (Some (Wrapf ''error searching for issues matching commit'' boom)),
      [Logged Info ''Searching for PRs matching the commit.'',
       FindIssuesCall ''abc repo:org/repo type:pr state:open'' '''' False])"
  by (simp add: handle_def se0_def claContextName_def StatusPending_def maxRetries_def
        fakeClient_def searchQuery_def repo0_def eval_nat_numeral)

text \<open>
  Claim C5, amended. An error returned by the search at any of the attempts (the attempts
  before it having found nothing) ends \<^verbatim>\<open>handle\<close> at once: it returns that error,
  wrapped, to the caller; the history ends with the failing search call, so there is no
  further attempt, no fetch, no label call and no log line about the error.
\<close>

theorem search_error_returned:
  "se_State se \<noteq> '''' \<Longrightarrow> se_Context se = claContextName \<Longrightarrow> se_State se \<noteq> StatusPending \<Longrightarrow>
   k < maxRetries \<Longrightarrow> (\<forall>j<k. searchAnswer gc se j = ([], None)) \<Longrightarrow>
   snd (searchAnswer gc se k) = Some err \<Longrightarrow>
   handle im gc se =
     (Returned (Some (Wrapf ''error searching for issues matching commit'' err)),
      attemptHistory se k @ [FindIssuesCall (searchQuery se) '''' False])"
proof -
  assume pre: "se_State se \<noteq> ''''" "se_Context se = claContextName"
    "se_State se \<noteq> StatusPending"
    and k: "k < maxRetries" and empty: "\<forall>j<k. searchAnswer gc se j = ([], None)"
    and fails: "snd (searchAnswer gc se k) = Some err"
  obtain m where m: "maxRetries - k = Suc m"
    using k by (cases "maxRetries - k") auto
  obtain issues where ans: "searchAnswer gc se k = (issues, Some err)"
    using fails by (cases "searchAnswer gc se k") auto
  have "findLoop gc (searchQuery se) maxRetries (attemptHistory se 0)
          = findLoop gc (searchQuery se) (Suc m) (attemptHistory se k)"
    using findLoop_skip [of k gc se 0 maxRetries] empty k m by simp
  also have "\<dots> = (Inl (Wrapf ''error searching for issues matching commit'' err),
                    attemptHistory se k @ [FindIssuesCall (searchQuery se) '''' False])"
    using ans by (simp add: searchAnswer_def)
  finally show ?thesis
    using pre by (simp add: handle_checked)
qed

theorem search_error_returned_witness:
  "handle im0 (fakeClient ([], Some boom) (None, None) ([], None) (None, None))
     (se0 ''failure'' ''EasyCLA'')
   = (Returned (Some (Wrapf ''error searching for issues matching commit'' boom)),
      attemptHistory (se0 ''failure'' ''EasyCLA'') 0
        @ [FindIssuesCall (searchQuery (se0 ''failure'' ''EasyCLA'')) '''' False])"
proof -
  let ?se = "se0 ''failure'' ''EasyCLA''"
  let ?gc = "fakeClient ([], Some boom) (None, None) ([], None) (None, None)"
  have pre: "se_State ?se \<noteq> ''''" "se_Context ?se = claContextName"
    "se_State ?se \<noteq> StatusPending"
    by (simp_all add: se0_def claContextName_def StatusPending_def)
  have first: "0 < maxRetries" "\<forall>j<0. searchAnswer ?gc ?se j = ([], None)"
    by (simp_all add: maxRetries_def)
  have fails: "snd (searchAnswer ?gc ?se 0) = Some boom"
    by (simp add: searchAnswer_def fakeClient_def)
  show ?thesis
    using search_error_returned [OF pre first fails, of im0] .
qed

section \<open>Stale events, pending verdicts and labels that are up to date\<close>

text \<open>
  Claim C8, the staleness guard. For a matched candidate pull request of the status path:
  when the pull request that the client reports for it has a head commit other than the
  commit of the event, the body of the loop makes no label add or remove call for it,
  whatever the verdict and the labels of the issue are (and it does not panic).
\<close>

theorem staleness_guard:
  "prFetchedFor gc se issue h = (Some pr, err) \<Longrightarrow> branch_SHA (pr_Head pr) \<noteq> se_SHA se \<Longrightarrow>
   \<exists>evs. handleIssue im gc se issue h = (False, h @ evs) \<and> mutations evs = []"
proof -
  assume a: "prFetchedFor gc se issue h = (Some pr, err)"
    "branch_SHA (pr_Head pr) \<noteq> se_SHA se"
  obtain evs where evs: "snd (handleIssue im gc se issue h) = h @ evs"
    using handleIssue_extends by blast
  have "fst (handleIssue im gc se issue h) = False"
    and "mutations (snd (handleIssue im gc se issue h)) = mutations h"
    using handleIssue_stale [OF a] by simp_all
  then have "handleIssue im gc se issue h = (False, h @ evs) \<and> mutations evs = []"
    using evs by (cases "handleIssue im gc se issue h") (simp add: mutations_append)
  then show ?thesis by blast
qed

theorem staleness_guard_witness:
  "\<exists>evs. handleIssue im0
       (fakeClient ([issue0 [labelNo]], None) (Some (pr0 ''def''), None) ([], None) (None, None))
       (se0 ''success'' ''EasyCLA'') (issue0 [labelNo]) []
     = (False, [] @ evs) \<and> mutations evs = []"
proof -
  let ?gc = "fakeClient ([issue0 [labelNo]], None) (Some (pr0 ''def''), None) ([], None) (None, None)"
  let ?se = "se0 ''success'' ''EasyCLA''"
  have fetched: "prFetchedFor ?gc ?se (issue0 [labelNo]) [] = (Some (pr0 ''def''), None)"
    by (simp add: prFetchedFor_def fakeClient_def)
  have stale: "branch_SHA (pr_Head (pr0 ''def'')) \<noteq> se_SHA ?se"
    by (simp add: pr0_def se0_def)
  show ?thesis
    using staleness_guard [OF fetched stale, of im0] .
qed

text \<open>
  Claim C10, idempotence. When the verdict already matches the label state (success with
  only the positive label, failure or error with only the negative one), no label call is
  made: in the status path the body of the loop makes no client call at all for that pull
  request, and in the comment path \<^verbatim>\<open>handleComment\<close> returns \<^verbatim>\<open>nil\<close> without an
  add or remove call.
\<close>

theorem idempotence:
  "(upToDate (Issue_HasLabel im issue (labels_ClaYes im)) (Issue_HasLabel im issue (labels_ClaNo im))
      (se_State se)
    \<longrightarrow> (\<exists>evs. handleIssue im gc se issue h = (False, h @ evs) \<and> calls evs = []))
   \<and> (commentFlags im gc e = (y, n) \<and> fst (prFetched gc e) = Some p
        \<and> fst (statusFetched gc e p) = Some c \<and> claStatus (Statuses c) = Some s
        \<and> upToDate y n (status_State s)
      \<longrightarrow> fst (handleComment im gc e) = Returned None
          \<and> mutations (snd (handleComment im gc e)) = [])"
proof (intro conjI impI)
  assume "upToDate (Issue_HasLabel im issue (labels_ClaYes im))
            (Issue_HasLabel im issue (labels_ClaNo im)) (se_State se)"
  then have "handleIssue im gc se issue h
               = (False, h @ [Logged Info ''PR has up-to-date %s label.''])"
    by (rule handleIssue_upToDate)
  moreover have "calls [Logged Info ''PR has up-to-date %s label.''] = []"
    by (simp add: calls_def)
  ultimately show "\<exists>evs. handleIssue im gc se issue h = (False, h @ evs) \<and> calls evs = []"
    by blast
next
  assume a: "commentFlags im gc e = (y, n) \<and> fst (prFetched gc e) = Some p
        \<and> fst (statusFetched gc e p) = Some c \<and> claStatus (Statuses c) = Some s
        \<and> upToDate y n (status_State s)"
  then have ctx: "status_Context s = claContextName"
    using claStatus_context by blast
  have same: "statusLoop im gc org repo number y n [s] h' = h'" for org repo number h'
    using upToDate_cases [of y n "status_State s"] a ctx by auto
  have "handleComment im gc e = (Returned None, [])
        \<or> handleComment im gc e = (Returned None, afterStatus gc e p)"
  proof (cases "triggered e")
    case True
    then show ?thesis using a handleComment_decided [of e im gc y n p c s] same by simp
  next
    case False
    then show ?thesis by (simp add: handleComment_untriggered)
  qed
  then show "fst (handleComment im gc e) = Returned None"
    and "mutations (snd (handleComment im gc e)) = []"
    using mutations_afterStatus [of gc e p] by (auto simp add: mutations_def)
qed

theorem idempotence_witness:
  "(\<exists>evs. handleIssue im0
        (fakeClient ([issue0 [labelYes]], None) (Some (pr0 ''abc''), None) ([], None) (None, None))
        (se0 ''success'' ''EasyCLA'') (issue0 [labelYes]) []
      = (False, [] @ evs) \<and> calls evs = [])
   \<and> fst (handleComment im0
        (fakeClient ([], None) (Some (pr0 ''abc''), None) ([labelNo], None)
           (Some (cla0 ''failure''), None))
        (ce0 ''/check-cla'')) = Returned None
   \<and> mutations (snd (handleComment im0
        (fakeClient ([], None) (Some (pr0 ''abc''), None) ([labelNo], None)
           (Some (cla0 ''failure''), None))
        (ce0 ''/check-cla''))) = []"
proof -
  let ?gc1 = "fakeClient ([issue0 [labelYes]], None) (Some (pr0 ''abc''), None) ([], None) (None, None)"
  let ?gc2 = "fakeClient ([], None) (Some (pr0 ''abc''), None) ([labelNo], None)
                (Some (cla0 ''failure''), None)"
  let ?e = "ce0 ''/check-cla''"
  let ?s = "\<lparr>status_State = ''failure'', status_Context = ''EasyCLA''\<rparr>"
  have status_ok:
    "upToDate (Issue_HasLabel im0 (issue0 [labelYes]) (labels_ClaYes im0))
       (Issue_HasLabel im0 (issue0 [labelYes]) (labels_ClaNo im0))
       (se_State (se0 ''success'' ''EasyCLA''))"
    by (simp add: upToDate_def im0_def hasLabelByName_def issue0_def labelYes_def se0_def
          StatusSuccess_def)
  have comment_ok:
    "commentFlags im0 ?gc2 ?e = (False, True) \<and> fst (prFetched ?gc2 ?e) = Some (pr0 ''abc'')
       \<and> fst (statusFetched ?gc2 ?e (pr0 ''abc'')) = Some (cla0 ''failure'')
       \<and> claStatus (Statuses (cla0 ''failure'')) = Some ?s
       \<and> upToDate False True (status_State ?s)"
    by (simp add: commentFlags_def fetched_fake claStatus_cla0 im0_def labelNo_def
          upToDate_def StatusSuccess_def StatusFailure_def)
  note status_path =
    idempotence [where im = im0 and issue = "issue0 [labelYes]"
        and se = "se0 ''success'' ''EasyCLA''" and gc = ?gc1 and h = "[]",
      THEN conjunct1, THEN mp, OF status_ok]
  note comment_path =
    idempotence [where im = im0 and gc = ?gc2 and e = ?e and y = False and n = True
        and p = "pr0 ''abc''" and c = "cla0 ''failure''" and s = ?s,
      THEN conjunct2, THEN mp, OF comment_ok]
  show ?thesis
    by (intro conjI)
       (rule status_path, rule comment_path [THEN conjunct1], rule comment_path [THEN conjunct2])
qed




section \<open>The label transition when both labels are present\<close>

text \<open>
  Claim C1 says that, for a terminal verdict, the label opposite to the verdict is removed
  whenever the pull request carries it, also when it carries both labels, in both paths.
  The comment path does so (the loop of line 196 allows for both labels, and lines 227 and
  244 remove the opposite one). The status path does not: for every client, an issue that
  carries both labels passes one of the two checks of lines 120 and 126 whatever the
  terminal verdict is, and the body of the loop ends there, with one log line and no client
  call, so the label opposite to the verdict stays on the pull request. When the issue
  carries the opposite label alone the status path removes it
  (\<open>handleIssue_success_removes\<close>, \<open>handleIssue_failure_removes\<close>). The example is a
  success event for a pull request with both labels.
\<close>

theorem both_labels_kept_in_status_path:
  "(Issue_HasLabel im issue (labels_ClaYes im) \<and> Issue_HasLabel im issue (labels_ClaNo im)
      \<and> (se_State se = StatusSuccess \<or> se_State se = StatusFailure \<or> se_State se = StatusError)
    \<longrightarrow> handleIssue im gc se issue h
          = (False, h @ [Logged Info ''PR has up-to-date %s label.'']))
   \<and> (triggered e \<and> commentFlags im gc e = (True, True) \<and> fst (prFetched gc e) = Some p
        \<and> fst (statusFetched gc e p) = Some c \<and> claStatus (Statuses c) = Some s
    \<longrightarrow> (status_State s = StatusSuccess
          \<longrightarrow> mutations (snd (handleComment im gc e)) =
                [RemoveLabelCall (user_Login (repo_Owner (ce_Repo e))) (repo_Name (ce_Repo e))
                   (ce_Number e) (labels_ClaNo im)])
        \<and> (status_State s = StatusFailure
          \<longrightarrow> mutations (snd (handleComment im gc e)) =
                [RemoveLabelCall (user_Login (repo_Owner (ce_Repo e))) (repo_Name (ce_Repo e))
                   (ce_Number e) (labels_ClaYes im)]))"
proof (intro conjI impI)
  assume "Issue_HasLabel im issue (labels_ClaYes im) \<and> Issue_HasLabel im issue (labels_ClaNo im)
      \<and> (se_State se = StatusSuccess \<or> se_State se = StatusFailure \<or> se_State se = StatusError)"
  then have "(se_State se = StatusSuccess \<and> Issue_HasLabel im issue (labels_ClaYes im))
     \<or> ((se_State se = StatusFailure \<or> se_State se = StatusError)
         \<and> Issue_HasLabel im issue (labels_ClaNo im))"
    by blast
  then show "handleIssue im gc se issue h
          = (False, h @ [Logged Info ''PR has up-to-date %s label.''])"
    by (rule handleIssue_own_label_present)
next
  assume a: "triggered e \<and> commentFlags im gc e = (True, True) \<and> fst (prFetched gc e) = Some p
        \<and> fst (statusFetched gc e p) = Some c \<and> claStatus (Statuses c) = Some s"
    and ok: "status_State s = StatusSuccess"
  have ctx: "status_Context s = claContextName"
    using a claStatus_context by blast
  have run: "handleComment im gc e =
     (Returned None,
      statusLoop im gc (user_Login (repo_Owner (ce_Repo e))) (repo_Name (ce_Repo e))
        (ce_Number e) True True [s] (afterStatus gc e p))"
    using a handleComment_decided [of e im gc True True p c s] by blast
  show "mutations (snd (handleComment im gc e)) =
          [RemoveLabelCall (user_Login (repo_Owner (ce_Repo e))) (repo_Name (ce_Repo e))
             (ce_Number e) (labels_ClaNo im)]"
    using ctx ok by (simp add: run statusLoop_success mutations_afterStatus del: statusLoop.simps)
next
  assume a: "triggered e \<and> commentFlags im gc e = (True, True) \<and> fst (prFetched gc e) = Some p
        \<and> fst (statusFetched gc e p) = Some c \<and> claStatus (Statuses c) = Some s"
    and ko: "status_State s = StatusFailure"
  have ctx: "status_Context s = claContextName"
    using a claStatus_context by blast
  have run: "handleComment im gc e =
     (Returned None,
      statusLoop im gc (user_Login (repo_Owner (ce_Repo e))) (repo_Name (ce_Repo e))
        (ce_Number e) True True [s] (afterStatus gc e p))"
    using a handleComment_decided [of e im gc True True p c s] by blast
  show "mutations (snd (handleComment im gc e)) =
          [RemoveLabelCall (user_Login (repo_Owner (ce_Repo e))) (repo_Name (ce_Repo e))
             (ce_Number e) (labels_ClaYes im)]"
    using ctx ko by (simp add: run statusLoop_failure mutations_afterStatus del: statusLoop.simps)
qed

theorem both_labels_kept_in_status_path_witness:
  "handle im0
     (fakeClient ([issue0 [labelYes, labelNo]], None) (Some (pr0 ''abc''), None) ([], None)
        (None, None))
     (se0 ''success'' ''EasyCLA'')
   = (Returned None,
      [Logged Info ''Searching for PRs matching the commit.'',
       FindIssuesCall ''abc repo:org/repo type:pr state:open'' '''' False,
       Logged Info ''Found %d PRs matching commit.'',
       Logged Info ''PR has up-to-date %s label.''])
   \<and> handleIssue im0
       (fakeClient ([issue0 [labelYes, labelNo]], None) (Some (pr0 ''abc''), None) ([], None)
          (None, None))
       (se0 ''success'' ''EasyCLA'') (issue0 [labelYes, labelNo]) []
     = (False, [] @ [Logged Info ''PR has up-to-date %s label.''])
   \<and> handleIssue im0
       (fakeClient ([issue0 [labelYes, labelNo]], None) (Some (pr0 ''abc''), None) ([], None)
          (None, None))
       (se0 ''failure'' ''EasyCLA'') (issue0 [labelYes, labelNo]) []
     = (False, [] @ [Logged Info ''PR has up-to-date %s label.''])
   \<and> mutations (snd (handleComment im0
        (fakeClient ([], None) (Some (pr0 ''abc''), None) ([labelYes, labelNo], None)
           (Some (cla0 ''success''), None))
        (ce0 ''/check-cla''))) = [RemoveLabelCall ''org'' ''repo'' 7 ''cncf-cla: no'']
   \<and> mutations (snd (handleComment im0
        (fakeClient ([], None) (Some (pr0 ''abc''), None) ([labelYes, labelNo], None)
           (Some (cla0 ''failure''), None))
        (ce0 ''/check-cla''))) = [RemoveLabelCall ''org'' ''repo'' 7 ''cncf-cla: yes'']"
proof -
  let ?gcBoth = "fakeClient ([issue0 [labelYes, labelNo]], None) (Some (pr0 ''abc''), None)
                   ([], None) (None, None)"
  let ?gcS = "fakeClient ([], None) (Some (pr0 ''abc''), None) ([labelYes, labelNo], None)
                (Some (cla0 ''success''), None)"
  let ?gcF = "fakeClient ([], None) (Some (pr0 ''abc''), None) ([labelYes, labelNo], None)
                (Some (cla0 ''failure''), None)"
  let ?e = "ce0 ''/check-cla''"
  let ?sS = "\<lparr>status_State = ''success'', status_Context = ''EasyCLA''\<rparr>"
  let ?sF = "\<lparr>status_State = ''failure'', status_Context = ''EasyCLA''\<rparr>"
  have whole: "handle im0 ?gcBoth (se0 ''success'' ''EasyCLA'')
   = (Returned None,
      [Logged Info ''Searching for PRs matching the commit.'',
       FindIssuesCall ''abc repo:org/repo type:pr state:open'' '''' False,
       Logged Info ''Found %d PRs matching commit.'',
       Logged Info ''PR has up-to-date %s label.''])"
    by (simp add: handle_def se0_def claContextName_def StatusPending_def StatusSuccess_def
          maxRetries_def eval_nat_numeral fakeClient_def searchQuery_def repo0_def
          handleIssue_def im0_def hasLabelByName_def issue0_def labelYes_def labelNo_def)
  have both: "Issue_HasLabel im0 (issue0 [labelYes, labelNo]) (labels_ClaYes im0)"
    "Issue_HasLabel im0 (issue0 [labelYes, labelNo]) (labels_ClaNo im0)"
    by (simp_all add: im0_def hasLabelByName_def issue0_def labelYes_def labelNo_def)
  have hS: "Issue_HasLabel im0 (issue0 [labelYes, labelNo]) (labels_ClaYes im0)
      \<and> Issue_HasLabel im0 (issue0 [labelYes, labelNo]) (labels_ClaNo im0)
      \<and> (se_State (se0 ''success'' ''EasyCLA'') = StatusSuccess
          \<or> se_State (se0 ''success'' ''EasyCLA'') = StatusFailure
          \<or> se_State (se0 ''success'' ''EasyCLA'') = StatusError)"
    using both by (simp add: se0_def StatusSuccess_def)
  have hF: "Issue_HasLabel im0 (issue0 [labelYes, labelNo]) (labels_ClaYes im0)
      \<and> Issue_HasLabel im0 (issue0 [labelYes, labelNo]) (labels_ClaNo im0)
      \<and> (se_State (se0 ''failure'' ''EasyCLA'') = StatusSuccess
          \<or> se_State (se0 ''failure'' ''EasyCLA'') = StatusFailure
          \<or> se_State (se0 ''failure'' ''EasyCLA'') = StatusError)"
    using both by (simp add: se0_def StatusFailure_def)
  have cS: "triggered ?e \<and> commentFlags im0 ?gcS ?e = (True, True)
      \<and> fst (prFetched ?gcS ?e) = Some (pr0 ''abc'')
      \<and> fst (statusFetched ?gcS ?e (pr0 ''abc'')) = Some (cla0 ''success'')
      \<and> claStatus (Statuses (cla0 ''success'')) = Some ?sS"
    by (simp add: triggered_ce0 flags_fake fetched_fake claStatus_cla0)
  have cF: "triggered ?e \<and> commentFlags im0 ?gcF ?e = (True, True)
      \<and> fst (prFetched ?gcF ?e) = Some (pr0 ''abc'')
      \<and> fst (statusFetched ?gcF ?e (pr0 ''abc'')) = Some (cla0 ''failure'')
      \<and> claStatus (Statuses (cla0 ''failure'')) = Some ?sF"
    by (simp add: triggered_ce0 flags_fake fetched_fake claStatus_cla0)
  have stS: "status_State ?sS = StatusSuccess" and stF: "status_State ?sF = StatusFailure"
    by (simp_all add: StatusSuccess_def StatusFailure_def)
  note w1 = both_labels_kept_in_status_path [where im = im0 and issue = "issue0 [labelYes, labelNo]"
      and se = "se0 ''success'' ''EasyCLA''" and gc = ?gcBoth and h = "[]",
      THEN conjunct1, THEN mp, OF hS]
  note w2 = both_labels_kept_in_status_path [where im = im0 and issue = "issue0 [labelYes, labelNo]"
      and se = "se0 ''failure'' ''EasyCLA''" and gc = ?gcBoth and h = "[]",
      THEN conjunct1, THEN mp, OF hF]
  note w3 = both_labels_kept_in_status_path [where im = im0 and gc = ?gcS and e = ?e
      and p = "pr0 ''abc''" and c = "cla0 ''success''" and s = ?sS,
      THEN conjunct2, THEN mp, OF cS, THEN conjunct1, THEN mp, OF stS]
  note w4 = both_labels_kept_in_status_path [where im = im0 and gc = ?gcF and e = ?e
      and p = "pr0 ''abc''" and c = "cla0 ''failure''" and s = ?sF,
      THEN conjunct2, THEN mp, OF cF, THEN conjunct2, THEN mp, OF stF]
  show ?thesis
    apply (intro conjI)
    subgoal by (rule whole)
    subgoal by (rule w1)
    subgoal by (rule w2)
    subgoal using w3 by (simp add: ce0_def repo0_def im0_def)
    subgoal using w4 by (simp add: ce0_def repo0_def im0_def)
    done
qed

section \<open>Where the comment path departs from the specification\<close>

text \<open>
  Claim C3 says that in the comment path a status in state error is treated as a failure
  is: the positive label removed, the negative one added. The code of lines 224 to 256
  handles success and failure only (the status path, line 126, treats error as failure).
  For every client: when the status that decides is in state error, \<^verbatim>\<open>handleComment\<close>
  ends after the three fetches and makes no label call. The example has the positive label
  on the pull request.
\<close>

theorem comment_error_ignored:
  "triggered e \<Longrightarrow> fst (prFetched gc e) = Some p \<Longrightarrow> fst (statusFetched gc e p) = Some c \<Longrightarrow>
   claStatus (Statuses c) = Some s \<Longrightarrow> status_State s = StatusError \<Longrightarrow>
   handleComment im gc e = (Returned None, afterStatus gc e p)
   \<and> mutations (snd (handleComment im gc e)) = []"
proof -
  assume a: "triggered e" "fst (prFetched gc e) = Some p" "fst (statusFetched gc e p) = Some c"
    "claStatus (Statuses c) = Some s" and err: "status_State s = StatusError"
  have ctx: "status_Context s = claContextName"
    using a(4) by (rule claStatus_context)
  have "statusLoop im gc org repo number y n [s] h' = h'" for org repo number y n h'
    using ctx err status_distinct by (simp add: statusLoop_other)
  then have "handleComment im gc e = (Returned None, afterStatus gc e p)"
    using handleComment_decided
      [OF a(1) _ a(2,3,4), of im "fst (commentFlags im gc e)" "snd (commentFlags im gc e)"]
    by simp
  then show ?thesis
    by (simp add: mutations_afterStatus)
qed

theorem comment_error_ignored_witness:
  "commentFlags im0
     (fakeClient ([], None) (Some (pr0 ''abc''), None) ([labelYes], None)
        (Some (cla0 ''error''), None))
     (ce0 ''/check-cla'') = (True, False)
   \<and> handleComment im0
        (fakeClient ([], None) (Some (pr0 ''abc''), None) ([labelYes], None)
           (Some (cla0 ''error''), None))
        (ce0 ''/check-cla'')
      = (Returned None,
         [GetIssueLabelsCall ''org'' ''repo'' 7, GetPullRequestCall ''org'' ''repo'' 7,
          GetCombinedStatusCall ''org'' ''repo'' ''abc''])"
proof -
  let ?gc = "fakeClient ([], None) (Some (pr0 ''abc''), None) ([labelYes], None)
               (Some (cla0 ''error''), None)"
  let ?e = "ce0 ''/check-cla''"
  let ?s = "\<lparr>status_State = ''error'', status_Context = ''EasyCLA''\<rparr>"
  have pr: "fst (prFetched ?gc ?e) = Some (pr0 ''abc'')"
    and st: "fst (statusFetched ?gc ?e (pr0 ''abc'')) = Some (cla0 ''error'')"
    and cla: "claStatus (Statuses (cla0 ''error'')) = Some ?s"
    and err: "status_State ?s = StatusError"
    by (simp_all add: fetched_fake claStatus_cla0 StatusError_def)
  have after: "afterStatus ?gc ?e (pr0 ''abc'')
      = [GetIssueLabelsCall ''org'' ''repo'' 7, GetPullRequestCall ''org'' ''repo'' 7,
         GetCombinedStatusCall ''org'' ''repo'' ''abc'']"
    by (simp add: afterStatus_def afterPR_def afterLabels_def fetched_fake ce0_def repo0_def
          pr0_def)
  show ?thesis
    using comment_error_ignored [OF triggered_ce0 pr st cla err, of im0] after
    by (simp add: flags_fake)
qed

text \<open>
  Claim C2 says that after a failed fetch in the comment path the processing stops with no
  label mutation. The code logs the error and goes on (there is no \<^verbatim>\<open>return\<close> after
  lines 194, 208 and 215). For every client: when the fetch of the labels fails with no
  labels, and the pull request and a combined status with a successful EasyCLA entry are
  fetched, \<^verbatim>\<open>handleComment\<close> adds the positive label.
\<close>

theorem comment_label_fetch_error_goes_on:
  "triggered e \<Longrightarrow> labelsFetched gc e = ([], Some err) \<Longrightarrow> fst (prFetched gc e) = Some p \<Longrightarrow>
   fst (statusFetched gc e p) = Some c \<Longrightarrow> claStatus (Statuses c) = Some s \<Longrightarrow>
   status_State s = StatusSuccess \<Longrightarrow>
   fst (handleComment im gc e) = Returned None
   \<and> mutations (snd (handleComment im gc e)) =
       [AddLabelCall (user_Login (repo_Owner (ce_Repo e))) (repo_Name (ce_Repo e)) (ce_Number e)
          (labels_ClaYes im)]"
proof -
  assume a: "triggered e" "fst (prFetched gc e) = Some p" "fst (statusFetched gc e p) = Some c"
    "claStatus (Statuses c) = Some s"
    and failed: "labelsFetched gc e = ([], Some err)"
    and ok: "status_State s = StatusSuccess"
  have ctx: "status_Context s = claContextName"
    using a(4) by (rule claStatus_context)
  have flags: "commentFlags im gc e = (False, False)"
    using failed by (simp add: commentFlags_def)
  have run: "handleComment im gc e =
     (Returned None,
      statusLoop im gc (user_Login (repo_Owner (ce_Repo e))) (repo_Name (ce_Repo e))
        (ce_Number e) False False [s] (afterStatus gc e p))"
    using handleComment_decided [OF a(1) flags a(2,3,4)] .
  show ?thesis
    using ctx ok by (simp add: run statusLoop_success mutations_afterStatus del: statusLoop.simps)
qed

theorem comment_label_fetch_error_goes_on_witness:
  "handleComment im0
     (fakeClient ([], None) (Some (pr0 ''abc''), None) ([], Some boom)
        (Some (cla0 ''success''), None))
     (ce0 ''/check-cla'')
   = (Returned None,
      [GetIssueLabelsCall ''org'' ''repo'' 7,
       Logged Error ''Failed to get the labels on %s/%s#%d.'',
       GetPullRequestCall ''org'' ''repo'' 7,
       GetCombinedStatusCall ''org'' ''repo'' ''abc'',
       AddLabelCall ''org'' ''repo'' 7 ''cncf-cla: yes''])
   \<and> mutations (snd (handleComment im0
        (fakeClient ([], None) (Some (pr0 ''abc''), None) ([], Some boom)
           (Some (cla0 ''success''), None))
        (ce0 ''/check-cla''))) = [AddLabelCall ''org'' ''repo'' 7 ''cncf-cla: yes'']"
proof -
  let ?gc = "fakeClient ([], None) (Some (pr0 ''abc''), None) ([], Some boom)
               (Some (cla0 ''success''), None)"
  let ?e = "ce0 ''/check-cla''"
  let ?s = "\<lparr>status_State = ''success'', status_Context = ''EasyCLA''\<rparr>"
  have failed: "labelsFetched ?gc ?e = ([], Some boom)"
    and pr: "fst (prFetched ?gc ?e) = Some (pr0 ''abc'')"
    and st: "fst (statusFetched ?gc ?e (pr0 ''abc'')) = Some (cla0 ''success'')"
    and cla: "claStatus (Statuses (cla0 ''success'')) = Some ?s"
    and ok: "status_State ?s = StatusSuccess"
    by (simp_all add: fetched_fake claStatus_cla0 StatusSuccess_def)
  have run: "handleComment im0 ?gc ?e
   = (Returned None,
      [GetIssueLabelsCall ''org'' ''repo'' 7,
       Logged Error ''Failed to get the labels on %s/%s#%d.'',
       GetPullRequestCall ''org'' ''repo'' 7,
       GetCombinedStatusCall ''org'' ''repo'' ''abc'',
       AddLabelCall ''org'' ''repo'' 7 ''cncf-cla: yes''])"
    using handleComment_decided [OF triggered_ce0 flags_fake(1) pr st cla]
    by (simp add: afterStatus_def afterPR_def afterLabels_def fetched_fake claContextName_def
          StatusSuccess_def gc_AddLabel_def label_calls_fake ce0_def repo0_def pr0_def im0_def)
  show ?thesis
    using comment_label_fetch_error_goes_on [OF triggered_ce0 failed pr st cla ok, of im0] run
    by (simp add: ce0_def repo0_def im0_def)
qed

text \<open>
  Claim C4 says that \<^verbatim>\<open>handleComment\<close> is total, also when the fetch of the pull request
  or of the combined status fails and returns \<^verbatim>\<open>nil\<close>. Lines 212 and 218 dereference
  the two results without a check. For every client and every triggering event: a
  \<^verbatim>\<open>nil\<close> pull request makes \<^verbatim>\<open>handleComment\<close> panic right after the fetch (and the log
  line, when there is an error), and so does a \<^verbatim>\<open>nil\<close> combined status.
\<close>

theorem comment_nil_dereference:
  "triggered e \<Longrightarrow>
   (fst (prFetched gc e) = None \<longrightarrow> handleComment im gc e = (Panicked, afterPR gc e))
   \<and> (fst (prFetched gc e) = Some p \<and> fst (statusFetched gc e p) = None
      \<longrightarrow> handleComment im gc e = (Panicked, afterStatus gc e p))"
proof (intro conjI impI)
  assume t: "triggered e" and "fst (prFetched gc e) = None"
  then show "handleComment im gc e = (Panicked, afterPR gc e)"
    by (simp add: handleComment_triggered)
next
  assume t: "triggered e"
    and "fst (prFetched gc e) = Some p \<and> fst (statusFetched gc e p) = None"
  then show "handleComment im gc e = (Panicked, afterStatus gc e p)"
    by (simp add: handleComment_triggered)
qed

theorem comment_nil_dereference_witness:
  "handleComment im0
     (fakeClient ([], None) (None, Some boom) ([labelNo], None) (Some (cla0 ''success''), None))
     (ce0 ''/check-cla'')
   = (Panicked,
      [GetIssueLabelsCall ''org'' ''repo'' 7, GetPullRequestCall ''org'' ''repo'' 7,
       Logged Error ''Unable to fetch PR-%d from %s/%s.''])
   \<and> handleComment im0
     (fakeClient ([], None) (Some (pr0 ''abc''), None) ([labelNo], None) (None, Some boom))
     (ce0 ''/check-cla'')
   = (Panicked,
      [GetIssueLabelsCall ''org'' ''repo'' 7, GetPullRequestCall ''org'' ''repo'' 7,
       GetCombinedStatusCall ''org'' ''repo'' ''abc'',
       Logged Error ''Failed to get statuses on %s/%s#%d''])"
proof -
  let ?gc1 = "fakeClient ([], None) (None, Some boom) ([labelNo], None)
                (Some (cla0 ''success''), None)"
  let ?gc2 = "fakeClient ([], None) (Some (pr0 ''abc''), None) ([labelNo], None)
                (None, Some boom)"
  let ?e = "ce0 ''/check-cla''"
  have nil_pr: "fst (prFetched ?gc1 ?e) = None"
    and nil_status: "fst (prFetched ?gc2 ?e) = Some (pr0 ''abc'')
                     \<and> fst (statusFetched ?gc2 ?e (pr0 ''abc'')) = None"
    by (simp_all add: fetched_fake)
  note w1 = comment_nil_dereference [OF triggered_ce0, where gc = ?gc1 and im = im0,
      THEN conjunct1, THEN mp, OF nil_pr]
  note w2 = comment_nil_dereference [OF triggered_ce0, where gc = ?gc2 and im = im0
      and p = "pr0 ''abc''", THEN conjunct2, THEN mp, OF nil_status]
  show ?thesis
    apply (intro conjI)
    subgoal using w1
      by (simp add: afterPR_def afterLabels_def fetched_fake ce0_def repo0_def boom_def)
    subgoal using w2
      by (simp add: afterStatus_def afterPR_def afterLabels_def fetched_fake ce0_def repo0_def
            pr0_def boom_def)
    done
qed

section \<open>The trigger of the comment path\<close>

subsection \<open>The regular expression matches only what the specification describes\<close>

lemma stripPrefix_Some: "stripPrefix a s = Some r \<Longrightarrow> s = a @ r"
  by (induction a s rule: stripPrefix.induct) (auto split: if_splits)

lemma stripPrefix_append: "stripPrefix a (a @ r) = Some r"
  by (induction a) simp_all

lemma stripPrefix_longer: "stripPrefix a x = Some t \<Longrightarrow> stripPrefix a (x @ r) = Some (t @ r)"
proof -
  assume "stripPrefix a x = Some t"
  then have "x = a @ t" by (rule stripPrefix_Some)
  then show ?thesis using stripPrefix_append [of a "t @ r"] by simp
qed

lemma matchRune_Some: "matchRune alts s = Some t \<Longrightarrow> \<exists>a\<in>set alts. s = a @ t"
proof (induction alts)
  case Nil
  then show ?case by simp
next
  case (Cons b alts)
  show ?case
  proof (cases "stripPrefix b s")
    case None
    then show ?thesis using Cons by simp
  next
    case (Some rest)
    then have "rest = t" using Cons.prems by simp
    then show ?thesis using Some stripPrefix_Some [of b s t] by simp
  qed
qed

lemma matchRune_cut: "matchRune alts (x @ r) = Some (y @ r) \<Longrightarrow> matchRune alts x = Some y"
proof (induction alts)
  case Nil
  then show ?case by simp
next
  case (Cons b alts)
  show ?case
  proof (cases "stripPrefix b (x @ r)")
    case None
    have "stripPrefix b x = None"
    proof (cases "stripPrefix b x")
      case (Some t)
      then show ?thesis using stripPrefix_longer [of b x t r] None by simp
    qed simp
    then show ?thesis using Cons None by simp
  next
    case (Some rest)
    then have rest: "rest = y @ r" using Cons.prems by simp
    then have "x @ r = b @ y @ r" using Some stripPrefix_Some by blast
    then have "x = b @ y" by simp
    then show ?thesis using stripPrefix_append [of b y] by simp
  qed
qed

lemma matchLiteral_cut:
  "matchLiteral rs s = Some r \<Longrightarrow>
   \<exists>m. s = m @ r \<and> matchLiteral rs m = Some []
       \<and> (\<forall>c\<in>set m. \<exists>alts\<in>set rs. \<exists>a\<in>set alts. c \<in> set a)"
proof (induction rs arbitrary: s)
  case Nil
  then show ?case by simp
next
  case (Cons r0 rs)
  from Cons.prems obtain s1 where first: "matchRune r0 s = Some s1"
    and rest: "matchLiteral rs s1 = Some r"
    by (cases "matchRune r0 s") auto
  from Cons.IH [OF rest] obtain m1 where m1: "s1 = m1 @ r" "matchLiteral rs m1 = Some []"
    "\<forall>c\<in>set m1. \<exists>alts\<in>set rs. \<exists>a\<in>set alts. c \<in> set a"
    by blast
  from matchRune_Some [OF first] obtain a where a: "a \<in> set r0" "s = a @ s1"
    by blast
  have "matchRune r0 ((a @ m1) @ r) = Some (m1 @ r)"
    using first a m1 by simp
  then have "matchRune r0 (a @ m1) = Some m1"
    by (rule matchRune_cut)
  then have ok: "matchLiteral (r0 # rs) (a @ m1) = Some []"
    using m1 by simp
  have chars: "\<forall>c\<in>set (a @ m1). \<exists>alts\<in>set (r0 # rs). \<exists>b\<in>set alts. c \<in> set b"
    using a(1) m1(3) by auto
  have "s = (a @ m1) @ r" using a m1 by simp
  then show ?case using ok chars by blast
qed

lemma checkCLALiteral_chars:
  "alts \<in> set checkCLALiteral \<Longrightarrow> a \<in> set alts \<Longrightarrow> c \<in> set a \<Longrightarrow> \<not> spec_whitespace c"
  by (auto simp add: checkCLALiteral_def kelvinSign_def spec_whitespace_def)

lemma checkCLALiteral_nonempty: "matchLiteral checkCLALiteral [] = None"
  by (simp add: checkCLALiteral_def)

lemma isSpaceClass_spec: "isSpaceClass c \<Longrightarrow> spec_whitespace c"
  by (auto simp add: isSpaceClass_def spec_whitespace_def newline_def)

lemma newline_spec: "spec_whitespace newline"
  by (simp add: spec_whitespace_def newline_def)

lemma spacesThenEnd_shape:
  "spacesThenEnd r \<Longrightarrow>
   \<exists>w. (\<forall>c\<in>set w. spec_whitespace c \<and> c \<noteq> newline) \<and> (r = w \<or> (\<exists>rest. r = w @ newline # rest))"
proof (induction r)
  case Nil
  then show ?case by simp
next
  case (Cons c cs)
  show ?case
  proof (cases "c = newline")
    case True
    then have "c # cs = [] @ newline # cs" by simp
    then show ?thesis by (metis empty_iff list.set(1))
  next
    case False
    then have sp: "isSpaceClass c" and tl: "spacesThenEnd cs" using Cons.prems by simp_all
    from Cons.IH [OF tl] obtain w where w: "\<forall>x\<in>set w. spec_whitespace x \<and> x \<noteq> newline"
      "cs = w \<or> (\<exists>rest. cs = w @ newline # rest)"
      by blast
    have "\<forall>x\<in>set (c # w). spec_whitespace x \<and> x \<noteq> newline"
      using w(1) sp False isSpaceClass_spec by simp
    moreover have "c # cs = c # w \<or> (\<exists>rest. c # cs = (c # w) @ newline # rest)"
      using w(2) by auto
    ultimately show ?thesis by blast
  qed
qed

lemma spec_lines_nonempty: "spec_lines s \<noteq> []"
  by (induction s) (auto split: list.splits)

lemma spec_lines_single: "\<forall>c\<in>set x. c \<noteq> newline \<Longrightarrow> spec_lines x = [x]"
  by (induction x) (auto split: list.splits)

lemma spec_lines_first:
  "\<forall>c\<in>set x. c \<noteq> newline \<Longrightarrow> hd (spec_lines (x @ newline # rest)) = x"
  by (induction x) (auto split: list.splits simp add: spec_lines_nonempty)

lemma spec_trim_command:
  assumes "m \<noteq> []" "\<forall>c\<in>set m. \<not> spec_whitespace c" "\<forall>c\<in>set w. spec_whitespace c"
  shows "spec_trim (m @ w) = m"
proof -
  obtain c cs where m: "m = c # cs" using assms(1) by (cases m) auto
  have front: "dropWhile spec_whitespace (m @ w) = m @ w"
    using assms(2) m by simp
  have "dropWhile spec_whitespace (rev w @ rev m) = dropWhile spec_whitespace (rev m)"
    using assms(3) by (simp add: dropWhile_append)
  also have "\<dots> = rev m"
  proof -
    have "rev m \<noteq> []" using assms(1) by simp
    then obtain d ds where r: "rev m = d # ds" by (cases "rev m") auto
    then have "d \<in> set m" by (metis list.set_intros(1) set_rev)
    then have "\<not> spec_whitespace d" using assms(2) by blast
    then show ?thesis using r by simp
  qed
  finally show ?thesis
    by (simp add: spec_trim_def front)
qed

lemma matchHere_first_line:
  assumes "matchHere s"
  shows "spec_isCommand (spec_trim (hd (spec_lines s)))"
proof -
  from assms obtain r where lit: "matchLiteral checkCLALiteral s = Some r"
    and sp: "spacesThenEnd r"
    by (cases "matchLiteral checkCLALiteral s") (auto simp add: matchHere_def)
  from matchLiteral_cut [OF lit] obtain m where m: "s = m @ r"
    "matchLiteral checkCLALiteral m = Some []"
    "\<forall>c\<in>set m. \<exists>alts\<in>set checkCLALiteral. \<exists>a\<in>set alts. c \<in> set a"
    by blast
  have m_ne: "m \<noteq> []"
    using m(2) checkCLALiteral_nonempty by auto
  have m_chars: "\<forall>c\<in>set m. \<not> spec_whitespace c"
    using m(3) checkCLALiteral_chars by blast
  from spacesThenEnd_shape [OF sp] obtain w where
    w: "\<forall>c\<in>set w. spec_whitespace c \<and> c \<noteq> newline"
    and r: "r = w \<or> (\<exists>rest. r = w @ newline # rest)"
    by blast
  have no_nl: "\<forall>c\<in>set (m @ w). c \<noteq> newline"
    using m_chars w newline_spec by auto
  have "hd (spec_lines s) = m @ w"
  proof (cases "r = w")
    case True
    then show ?thesis using m(1) spec_lines_single [OF no_nl] by simp
  next
    case False
    then obtain rest where "r = w @ newline # rest" using r by blast
    then have "s = (m @ w) @ newline # rest" using m(1) by simp
    then show ?thesis using spec_lines_first [OF no_nl] by simp
  qed
  moreover have "spec_trim (m @ w) = m"
    using spec_trim_command [OF m_ne m_chars] w by blast
  ultimately show ?thesis
    using m(2) by (simp add: spec_isCommand_def)
qed

lemma spec_lines_Cons_newline: "spec_lines (newline # cs) = [] # spec_lines cs"
  by simp

lemma spec_lines_Cons_other:
  "c \<noteq> newline \<Longrightarrow> tl (spec_lines (c # cs)) = tl (spec_lines cs)"
  by (cases "spec_lines cs") (simp_all add: spec_lines_nonempty)

lemma matchFrom_line:
  "matchFrom b s \<Longrightarrow>
   (b \<and> spec_isCommand (spec_trim (hd (spec_lines s))))
   \<or> (\<exists>l\<in>set (tl (spec_lines s)). spec_isCommand (spec_trim l))"
proof (induction s arbitrary: b)
  case Nil
  then have "matchHere []" by simp
  then show ?case
    by (simp add: matchHere_def checkCLALiteral_nonempty)
next
  case (Cons c cs)
  show ?case
  proof (cases "b \<and> matchHere (c # cs)")
    case True
    then show ?thesis using matchHere_first_line by blast
  next
    case False
    then have later: "matchFrom (c = newline) cs" using Cons.prems by auto
    note ih = Cons.IH [OF later]
    show ?thesis
    proof (cases "c = newline")
      case True
      have "hd (spec_lines cs) \<in> set (spec_lines cs)"
        using spec_lines_nonempty by simp
      moreover have "set (tl (spec_lines cs)) \<subseteq> set (spec_lines cs)"
        using spec_lines_nonempty by (metis list.set_sel(2) subsetI)
      ultimately have "\<exists>l\<in>set (spec_lines cs). spec_isCommand (spec_trim l)"
        using ih by blast
      then show ?thesis using True by simp
    next
      case False
      then have "\<exists>l\<in>set (tl (spec_lines cs)). spec_isCommand (spec_trim l)"
        using ih by simp
      then show ?thesis using spec_lines_Cons_other [OF False] by simp
    qed
  qed
qed

lemma checkCLARe_refines_spec: "checkCLARe_MatchString body \<Longrightarrow> spec_trigger body"
proof -
  assume "checkCLARe_MatchString body"
  then have "matchFrom True body" by (simp add: checkCLARe_MatchString_def)
  from matchFrom_line [OF this]
  have "spec_isCommand (spec_trim (hd (spec_lines body)))
        \<or> (\<exists>l\<in>set (tl (spec_lines body)). spec_isCommand (spec_trim l))"
    by simp
  moreover have "hd (spec_lines body) \<in> set (spec_lines body)"
    using spec_lines_nonempty by simp
  moreover have "set (tl (spec_lines body)) \<subseteq> set (spec_lines body)"
    using spec_lines_nonempty by (metis list.set_sel(2) subsetI)
  ultimately have "\<exists>l\<in>set (spec_lines body). spec_isCommand (spec_trim l)"
    by blast
  then show ?thesis
    by (simp add: spec_trigger_def list_ex_iff)
qed

text \<open>
  The converse does not hold: the specification also allows whitespace before the command,
  the regular expression does not (\<^verbatim>\<open>^\<close> is followed by the slash at once).
\<close>

lemma leading_whitespace_not_matched:
  "spec_trigger '' /check-cla'' \<and> \<not> checkCLARe_MatchString '' /check-cla''"
  by (simp add: spec_trigger_def spec_trim_def spec_isCommand_def newline_def
        spec_whitespace_def checkCLALiteral_def checkCLARe_MatchString_def matchHere_def)

subsection \<open>The checks before the first call\<close>

text \<open>
  Claim C7. \<^verbatim>\<open>handleComment\<close> makes no external call (it produces no event at all) and
  returns \<^verbatim>\<open>nil\<close> unless the issue is open, the comment has just been created, and the
  body contains the command \<^verbatim>\<open>/check-cla\<close> on a line of its own, up to case and to
  whitespace around it on that line. The trigger is taken in the words of the
  specification (\<open>spec_trigger\<close>); the code decides with the expression
  \<open>checkCLARe\<close>, which matches no other body.
\<close>

theorem comment_preconditions:
  "\<not> (ce_IssueState e = ''open'' \<and> ce_Action e = GenericCommentActionCreated
       \<and> spec_trigger (ce_Body e)) \<Longrightarrow>
   handleComment im gc e = (Returned None, [])"
proof -
  assume "\<not> (ce_IssueState e = ''open'' \<and> ce_Action e = GenericCommentActionCreated
       \<and> spec_trigger (ce_Body e))"
  then have "\<not> triggered e"
    using checkCLARe_refines_spec [of "ce_Body e"] by (auto simp add: triggered_def)
  then show ?thesis
    by (rule handleComment_untriggered)
qed

theorem comment_preconditions_witness:
  "handleComment im0
     (fakeClient ([], None) (Some (pr0 ''abc''), None) ([labelNo], None)
        (Some (cla0 ''success''), None))
     ((ce0 ''/check-cla'')\<lparr>ce_Action := GenericCommentActionEdited\<rparr>) = (Returned None, [])
   \<and> handleComment im0
     (fakeClient ([], None) (Some (pr0 ''abc''), None) ([labelNo], None)
        (Some (cla0 ''success''), None))
     ((ce0 ''/check-cla'')\<lparr>ce_IssueState := ''closed''\<rparr>) = (Returned None, [])
   \<and> handleComment im0
     (fakeClient ([], None) (Some (pr0 ''abc''), None) ([labelNo], None)
        (Some (cla0 ''success''), None))
     (ce0 ''please /check-cla'') = (Returned None, [])"
proof -
  have edited: "\<not> (ce_IssueState ((ce0 ''/check-cla'')\<lparr>ce_Action := GenericCommentActionEdited\<rparr>) = ''open''
       \<and> ce_Action ((ce0 ''/check-cla'')\<lparr>ce_Action := GenericCommentActionEdited\<rparr>)
           = GenericCommentActionCreated
       \<and> spec_trigger (ce_Body ((ce0 ''/check-cla'')\<lparr>ce_Action := GenericCommentActionEdited\<rparr>)))"
    by (simp add: ce0_def)
  have closed: "\<not> (ce_IssueState ((ce0 ''/check-cla'')\<lparr>ce_IssueState := ''closed''\<rparr>) = ''open''
       \<and> ce_Action ((ce0 ''/check-cla'')\<lparr>ce_IssueState := ''closed''\<rparr>)
           = GenericCommentActionCreated
       \<and> spec_trigger (ce_Body ((ce0 ''/check-cla'')\<lparr>ce_IssueState := ''closed''\<rparr>)))"
    by (simp add: ce0_def)
  have other: "\<not> (ce_IssueState (ce0 ''please /check-cla'') = ''open''
       \<and> ce_Action (ce0 ''please /check-cla'') = GenericCommentActionCreated
       \<and> spec_trigger (ce_Body (ce0 ''please /check-cla'')))"
    by (simp add: ce0_def spec_trigger_def spec_trim_def spec_isCommand_def newline_def
          spec_whitespace_def checkCLALiteral_def)
  show ?thesis
    by (intro conjI)
       (rule comment_preconditions [OF edited], rule comment_preconditions [OF closed],
        rule comment_preconditions [OF other])
qed

end
